theory Spec2Isabelle
  imports Complex_Main "HOL-Library.Word"
begin

section \<open>JavaScript values used by the program\<close>

text \<open>
  A JavaScript number is modelled by its mathematical value, with the three
  non-finite values kept apart.  Comparisons, \<open>Math.min\<close> and \<open>Math.max\<close>
  are exact on numbers, and \<open>-0\<close> is identified with \<open>0\<close> (the program only
  compares and clamps such values).
\<close>

datatype jsnum = NaN | NegInf | Fin real | PosInf

datatype jsval = JUndefined | JNull | JBool bool | JNum jsnum | JStr string

text \<open>Truthiness (\<open>ToBoolean\<close>).\<close>

fun num_truthy :: "jsnum \<Rightarrow> bool" where
  "num_truthy NaN = False"
| "num_truthy (Fin r) = (r \<noteq> 0)"
| "num_truthy NegInf = True"
| "num_truthy PosInf = True"

fun truthy :: "jsval \<Rightarrow> bool" where
  "truthy JUndefined = False"
| "truthy JNull = False"
| "truthy (JBool b) = b"
| "truthy (JNum n) = num_truthy n"
| "truthy (JStr s) = (s \<noteq> [])"

text \<open>
  The white space of \<open>\s\<close> and of the trimming done by \<open>parseInt\<close>, on code
  units below 256: TAB, LF, VT, FF, CR, SPACE and NO-BREAK SPACE.
\<close>

definition js_ws :: "char \<Rightarrow> bool" where
  "js_ws c = (c \<in> {CHR 0x09, CHR 0x0A, CHR 0x0B, CHR 0x0C, CHR 0x0D, CHR 0x20, CHR 0xA0})"

text \<open>\<open>s.trim()\<close>\<close>

definition js_trim :: "string \<Rightarrow> string" where
  "js_trim s = rev (dropWhile js_ws (rev (dropWhile js_ws s)))"

text \<open>\<open>s.split(c)\<close> for a one-character separator.\<close>

fun split_on :: "char \<Rightarrow> string \<Rightarrow> string list" where
  "split_on c [] = [[]]"
| "split_on c (x # xs) =
     (if x = c then [] # split_on c xs
      else case split_on c xs of
             [] \<Rightarrow> [[x]]
           | w # ws \<Rightarrow> (x # w) # ws)"

subsection \<open>\<open>parseInt(s, 16)\<close>\<close>

definition hex_digit :: "char \<Rightarrow> nat option" where
  "hex_digit c =
     (let n = of_char c :: nat in
      if 48 \<le> n \<and> n \<le> 57 then Some (n - 48)
      else if 97 \<le> n \<and> n \<le> 102 then Some (n - 87)
      else if 65 \<le> n \<and> n \<le> 70 then Some (n - 55)
      else None)"

definition is_hex :: "char \<Rightarrow> bool" where
  "is_hex c = (hex_digit c \<noteq> None)"

text \<open>The value of a run of hexadecimal digits, most significant first.\<close>

fun hex_value :: "nat \<Rightarrow> string \<Rightarrow> nat" where
  "hex_value acc [] = acc"
| "hex_value acc (c # cs) =
     (case hex_digit c of None \<Rightarrow> acc | Some d \<Rightarrow> hex_value (16 * acc + d) cs)"

text \<open>
  \<open>parseInt\<close> with radix 16: leading white space is dropped, then an
  optional sign, then an optional \<open>0x\<close>/\<open>0X\<close> prefix; the longest run of
  hexadecimal digits that follows is the value, and an empty run gives \<open>NaN\<close>.
\<close>

definition strip_sign :: "string \<Rightarrow> real \<times> string" where
  "strip_sign s =
     (case s of
        [] \<Rightarrow> (1, [])
      | c # cs \<Rightarrow> if c = CHR ''-'' then (-1, cs) else if c = CHR ''+'' then (1, cs) else (1, s))"

definition strip_0x :: "string \<Rightarrow> string" where
  "strip_0x s =
     (case s of
        a # b # cs \<Rightarrow> if a = CHR ''0'' \<and> (b = CHR ''x'' \<or> b = CHR ''X'') then cs else s
      | _ \<Rightarrow> s)"

definition parseInt16 :: "string \<Rightarrow> jsnum" where
  "parseInt16 str =
     (let (sgn, s) = strip_sign (dropWhile js_ws str);
          z = takeWhile is_hex (strip_0x s)
      in if z = [] then NaN else Fin (sgn * real (hex_value 0 z)))"

fun num_div :: "jsnum \<Rightarrow> real \<Rightarrow> jsnum" where
  "num_div (Fin a) d = Fin (a / d)"
| "num_div n d = n"

section \<open>pdfUtils.js\<close>

subsection \<open>hexToRgb\<close>

text \<open>
  The three arguments handed to pdf-lib's \<open>rgb\<close>.  In \<open>hexToRgb\<close> the
  constructor \<open>rgb\<close> of the library is a parameter.
\<close>

datatype color = Rgb jsnum jsnum jsnum

definition js_slice :: "string \<Rightarrow> nat \<Rightarrow> nat \<Rightarrow> string" where
  "js_slice s i j = take (j - i) (drop i s)"

definition hexToRgb :: "(jsnum \<Rightarrow> jsnum \<Rightarrow> jsnum \<Rightarrow> 'c) \<Rightarrow> string option \<Rightarrow> 'c" where
  "hexToRgb rgb hex =
     (case hex of
        None \<Rightarrow> rgb (Fin 0.08) (Fin 0.1) (Fin 0.14)
      | Some h \<Rightarrow>
          if h = [] then rgb (Fin 0.08) (Fin 0.1) (Fin 0.14)
          else
            let clean = remove1 (CHR ''#'') h in
            if length clean \<noteq> 6 then rgb (Fin 0.08) (Fin 0.1) (Fin 0.14)
            else
              let r = num_div (parseInt16 (js_slice clean 0 2)) 255;
                  g = num_div (parseInt16 (js_slice clean 2 4)) 255;
                  b = num_div (parseInt16 (js_slice clean 4 6)) 255
              in rgb r g b)"

subsection \<open>pdf-lib and the browser, as used by pdfUtils.js\<close>

datatype js_error = Error string

type_synonym bytes = "8 word list"

text \<open>Sequencing of steps that may throw: \<open>Inl\<close> is the thrown error.\<close>

definition and_then :: "'e + 'a \<Rightarrow> ('a \<Rightarrow> 'e + 'b) \<Rightarrow> 'e + 'b" where
  "and_then m f = (case m of Inl e \<Rightarrow> Inl e | Inr x \<Rightarrow> f x)"

datatype StandardFonts =
    TimesRoman | TimesRomanBold | TimesRomanItalic | TimesRomanBoldItalic
  | Courier | CourierBold | CourierOblique | CourierBoldOblique
  | Helvetica | HelveticaBold | HelveticaOblique | HelveticaBoldOblique

datatype field_kind = PDFTextField | PDFCheckBox | PDFDropdown | PDFOptionList | PDFRadioGroup
  | OtherField

record text_options =
  t_x :: real
  t_y :: real
  t_size :: real
  t_font :: StandardFonts
  t_color :: color

record line_options =
  l_start :: "real \<times> real"
  l_end :: "real \<times> real"
  l_thickness :: real
  l_color :: color

record widget_rect =
  w_x :: real
  w_y :: real
  w_width :: real
  w_height :: real

record png_image =
  png_width :: real
  png_height :: real
  png_data :: bytes

record image_options =
  i_x :: real
  i_y :: real
  i_width :: "jsnum option"
  i_height :: "jsnum option"

text \<open>
  The library over a type \<open>'d\<close> of documents.  A method that mutates the
  document returns the new document; one that may throw returns a sum.  A
  page is given by its index, a form field by its name, an embedded font by
  its standard name.  \<open>getField\<close> is \<open>None\<close> where \<open>form.getField\<close> throws
  (no field of that name); embedding a standard font does not throw, and
  measuring is taken to return a width for every string (text the font
  cannot encode is rejected by \<open>drawText\<close>).
  \<open>dateNow\<close> is \<open>Date.now()\<close> as a string, \<open>atob\<close> and \<open>btoa\<close> are the
  browser's base64 decoder and encoder, between strings and the bytes of
  binary strings, and \<open>numberToString\<close> is the conversion \<open>String(n)\<close> of a
  number.
\<close>

record 'd pdflib =
  load :: "bytes \<Rightarrow> js_error + 'd"
  save :: "'d \<Rightarrow> js_error + bytes"
  pageCount :: "'d \<Rightarrow> nat"
  embedFont :: "StandardFonts \<Rightarrow> 'd \<Rightarrow> 'd"
  widthOfTextAtSize :: "StandardFonts \<Rightarrow> string \<Rightarrow> real \<Rightarrow> real"
  rgb :: "jsnum \<Rightarrow> jsnum \<Rightarrow> jsnum \<Rightarrow> js_error + color"
  drawText :: "nat \<Rightarrow> string \<Rightarrow> text_options \<Rightarrow> 'd \<Rightarrow> js_error + 'd"
  drawLine :: "nat \<Rightarrow> line_options \<Rightarrow> 'd \<Rightarrow> js_error + 'd"
  createTextField :: "string \<Rightarrow> 'd \<Rightarrow> js_error + 'd"
  createCheckBox :: "string \<Rightarrow> 'd \<Rightarrow> js_error + 'd"
  addToPage :: "string \<Rightarrow> nat \<Rightarrow> widget_rect \<Rightarrow> 'd \<Rightarrow> js_error + 'd"
  updateFieldAppearances :: "StandardFonts \<Rightarrow> 'd \<Rightarrow> js_error + 'd"
  getField :: "'d \<Rightarrow> string \<Rightarrow> field_kind option"
  setText :: "string \<Rightarrow> string \<Rightarrow> 'd \<Rightarrow> js_error + 'd"
  check :: "string \<Rightarrow> 'd \<Rightarrow> js_error + 'd"
  uncheck :: "string \<Rightarrow> 'd \<Rightarrow> js_error + 'd"
  select :: "string \<Rightarrow> string \<Rightarrow> 'd \<Rightarrow> js_error + 'd"
  embedPng :: "bytes \<Rightarrow> 'd \<Rightarrow> js_error + png_image \<times> 'd"
  drawImage :: "nat \<Rightarrow> png_image \<Rightarrow> image_options \<Rightarrow> 'd \<Rightarrow> js_error + 'd"
  atob :: "string \<Rightarrow> js_error + bytes"
  btoa :: "bytes \<Rightarrow> string"
  dateNow :: string
  numberToString :: "jsnum \<Rightarrow> string"

text \<open>Calling a method of \<open>undefined\<close>.\<close>

definition on_page :: "nat option \<Rightarrow> (nat \<Rightarrow> js_error + 'a) \<Rightarrow> js_error + 'a" where
  "on_page page f =
     (case page of
        None \<Rightarrow> Inl (Error ''Cannot read properties of undefined'')
      | Some k \<Rightarrow> f k)"

subsection \<open>dataUrlToBytes, resolvePage, resolveFontName\<close>

text \<open>
  \<open>dataUrl.split(',')[1]\<close>, handed to \<open>atob\<close>; without a comma it is
  \<open>undefined\<close>, which \<open>atob\<close> reads as the string \<open>undefined\<close>.  The result
  \<open>None\<close> is \<open>null\<close>.
\<close>

definition dataUrlToBytes :: "'d pdflib \<Rightarrow> string option \<Rightarrow> js_error + bytes option" where
  "dataUrlToBytes lib dataUrl =
     (case dataUrl of
        None \<Rightarrow> Inr None
      | Some u \<Rightarrow>
          if u = [] then Inr None
          else
            let base64 = (case split_on (CHR '','') u of
                            a # b # rest \<Rightarrow> b
                          | _ \<Rightarrow> ''undefined'')
            in and_then (atob lib base64) (\<lambda>bs. Inr (Some bs)))"

text \<open>\<open>pages[Math.min(pageIndex, pages.length - 1)] || pages[0]\<close>\<close>

definition resolvePage :: "nat \<Rightarrow> int \<Rightarrow> nat option" where
  "resolvePage n pageIndex =
     (let i = min pageIndex (int n - 1) in
      if 0 \<le> i \<and> nat i < n then Some (nat i)
      else if 0 < n then Some 0 else None)"

text \<open>\<open>toLowerCase\<close> on code units below 256.\<close>

definition js_lower :: "char \<Rightarrow> char" where
  "js_lower c =
     (let n = of_char c :: nat in
      if (65 \<le> n \<and> n \<le> 90) \<or> (192 \<le> n \<and> n \<le> 222 \<and> n \<noteq> 215) then char_of (n + 32) else c)"

text \<open>\<open>s || d\<close> on an optional string.\<close>

definition str_or :: "string option \<Rightarrow> string \<Rightarrow> string" where
  "str_or s d = (case s of None \<Rightarrow> d | Some v \<Rightarrow> if v = [] then d else v)"

definition resolveFontName :: "string option \<Rightarrow> string option \<Rightarrow> string option \<Rightarrow> StandardFonts" where
  "resolveFontName family weight style =
     (let isBold = (weight = Some ''bold'');
          isItalic = (style = Some ''italic'');
          key = map js_lower (str_or family ''helvetica'')
      in if key = ''times'' then
           (if isBold \<and> isItalic then TimesRomanBoldItalic
            else if isBold then TimesRomanBold
            else if isItalic then TimesRomanItalic
            else TimesRoman)
         else if key = ''courier'' then
           (if isBold \<and> isItalic then CourierBoldOblique
            else if isBold then CourierBold
            else if isItalic then CourierOblique
            else Courier)
         else if isBold \<and> isItalic then HelveticaBoldOblique
         else if isBold then HelveticaBold
         else if isItalic then HelveticaOblique
         else Helvetica)"


subsection \<open>wrapText\<close>

text \<open>
  \<open>paragraph.split(/\s+/).filter(Boolean)\<close>: the maximal runs of characters
  that are not white space.  \<open>cur\<close> is the run being read.
\<close>

fun split_ws :: "string \<Rightarrow> string \<Rightarrow> string list" where
  "split_ws cur [] = (if cur = [] then [] else [cur])"
| "split_ws cur (c # cs) =
     (if js_ws c then (if cur = [] then split_ws [] cs else cur # split_ws [] cs)
      else split_ws (cur @ [c]) cs)"

definition words_of :: "string \<Rightarrow> string list" where
  "words_of s = split_ws [] s"

text \<open>
  The loop over the words of one paragraph: \<open>W\<close> measures a line
  (\<open>font.widthOfTextAtSize(_, size)\<close>), \<open>lines\<close> and \<open>line\<close> are the two
  variables of the source.
\<close>

definition testLine :: "string \<Rightarrow> string \<Rightarrow> string" where
  "testLine line word = (if line \<noteq> [] then line @ '' '' @ word else word)"

fun wrap_words :: "(string \<Rightarrow> real) \<Rightarrow> real \<Rightarrow> string list \<Rightarrow> string \<Rightarrow> string list
    \<Rightarrow> string list \<times> string" where
  "wrap_words W maxWidth lines line [] = (lines, line)"
| "wrap_words W maxWidth lines line (word # ws) =
     (if W (testLine line word) > maxWidth \<and> line \<noteq> []
      then wrap_words W maxWidth (lines @ [line]) word ws
      else wrap_words W maxWidth lines (testLine line word) ws)"

text \<open>The body of \<open>paragraphs.forEach\<close>; \<open>notLast\<close> is \<open>index < paragraphs.length - 1\<close>.\<close>

definition wrap_paragraph :: "(string \<Rightarrow> real) \<Rightarrow> real \<Rightarrow> string list \<Rightarrow> string \<Rightarrow> bool \<Rightarrow> string list" where
  "wrap_paragraph W maxWidth lines paragraph notLast =
     (let (lines1, line) = wrap_words W maxWidth lines [] (words_of paragraph);
          lines2 = (if line \<noteq> [] \<or> paragraph = [] then lines1 @ [line] else lines1)
      in if notLast then lines2 @ [[]] else lines2)"

fun wrap_paragraphs :: "(string \<Rightarrow> real) \<Rightarrow> real \<Rightarrow> string list \<Rightarrow> string list \<Rightarrow> string list" where
  "wrap_paragraphs W maxWidth lines [] = lines"
| "wrap_paragraphs W maxWidth lines (p # ps) =
     wrap_paragraphs W maxWidth (wrap_paragraph W maxWidth lines p (ps \<noteq> [])) ps"

text \<open>
  \<open>wrapText(text, font, size, maxWidth)\<close>.  A font is its measuring function
  \<open>widthOfTextAtSize\<close>; \<open>maxWidth\<close> is \<open>None\<close> when it is \<open>undefined\<close>.
\<close>

definition wrapText :: "string \<Rightarrow> (string \<Rightarrow> real \<Rightarrow> real) \<Rightarrow> real \<Rightarrow> real option \<Rightarrow> string list" where
  "wrapText text font size' maxWidth =
     (if text = [] then [[]]
      else case maxWidth of
        None \<Rightarrow> split_on (CHR 0x0A) text
      | Some m \<Rightarrow>
          if m = 0 then split_on (CHR 0x0A) text
          else wrap_paragraphs (\<lambda>s. font s size') m [] (split_on (CHR 0x0A) text))"

text \<open>
  Words joined by single spaces, and the grouping of the words of a
  paragraph into lines that \<open>wrap_words\<close> computes on strings.
\<close>

fun join_sp :: "string list \<Rightarrow> string" where
  "join_sp [] = []"
| "join_sp [w] = w"
| "join_sp (w # ws) = w @ '' '' @ join_sp ws"

fun wrap_groups :: "(string \<Rightarrow> real) \<Rightarrow> real \<Rightarrow> string list list \<Rightarrow> string list \<Rightarrow> string list
    \<Rightarrow> string list list \<times> string list" where
  "wrap_groups W maxWidth gs g [] = (gs, g)"
| "wrap_groups W maxWidth gs g (word # ws) =
     (if W (join_sp (g @ [word])) > maxWidth \<and> g \<noteq> []
      then wrap_groups W maxWidth (gs @ [g]) [word] ws
      else wrap_groups W maxWidth gs (g @ [word]) ws)"

text \<open>A word: not empty and free of white space.\<close>

definition is_word :: "string \<Rightarrow> bool" where
  "is_word w = (w \<noteq> [] \<and> (\<forall>c \<in> set w. \<not> js_ws c))"

text \<open>
  A line made of whole words joined by single spaces that holds one word at
  most or fits the width; and a line whose oversized words stand alone.
\<close>

definition line_of_words :: "(string \<Rightarrow> real) \<Rightarrow> real \<Rightarrow> string \<Rightarrow> bool" where
  "line_of_words W m l = (l = join_sp (words_of l) \<and> (length (words_of l) \<le> 1 \<or> W l \<le> m))"

definition oversized_alone :: "(string \<Rightarrow> real) \<Rightarrow> real \<Rightarrow> string \<Rightarrow> bool" where
  "oversized_alone W m l = (\<forall>w \<in> set (words_of l). m < W w \<longrightarrow> l = w)"


subsection \<open>addTextToPdf\<close>

record text_args =
  a_pageIndex :: int
  a_x :: real
  a_y :: real
  a_text :: "string option"
  a_size :: "real option"
  a_fontFamily :: "string option"
  a_fontWeight :: "string option"
  a_fontStyle :: "string option"
  a_underline :: bool
  a_color :: "string option"
  a_maxWidth :: "real option"
  a_lineHeight :: "real option"

text \<open>\<open>n || d\<close> on an optional number.\<close>

definition real_or :: "real option \<Rightarrow> real \<Rightarrow> real" where
  "real_or n d = (case n of None \<Rightarrow> d | Some r \<Rightarrow> if r = 0 then d else r)"

text \<open>The body of \<open>lines.forEach\<close>, from the line of index \<open>index\<close> on.\<close>

fun draw_lines :: "'d pdflib \<Rightarrow> nat option \<Rightarrow> StandardFonts \<Rightarrow> real \<Rightarrow> color \<Rightarrow> real \<Rightarrow> real
    \<Rightarrow> real \<Rightarrow> bool \<Rightarrow> nat \<Rightarrow> string list \<Rightarrow> 'd \<Rightarrow> js_error + 'd" where
  "draw_lines lib page font effectiveSize ink x y effectiveLineHeight underline index [] doc = Inr doc"
| "draw_lines lib page font effectiveSize ink x y effectiveLineHeight underline index (line # rest) doc =
     (case on_page page (\<lambda>k. drawText lib k line
               \<lparr>t_x = x, t_y = y - real index * effectiveLineHeight, t_size = effectiveSize,
                t_font = font, t_color = ink\<rparr> doc) of
        Inl e \<Rightarrow> Inl e
      | Inr doc1 \<Rightarrow>
          (case (if underline
                 then on_page page (\<lambda>k. drawLine lib k
                        \<lparr>l_start = (x, y - real index * effectiveLineHeight - 2),
                         l_end = (x + widthOfTextAtSize lib font line effectiveSize,
                                  y - real index * effectiveLineHeight - 2),
                         l_thickness = max (effectiveSize / 16) 0.8, l_color = ink\<rparr> doc1)
                 else Inr doc1) of
             Inl e \<Rightarrow> Inl e
           | Inr doc2 \<Rightarrow>
               draw_lines lib page font effectiveSize ink x y effectiveLineHeight underline
                 (Suc index) rest doc2))"

definition addTextToPdf :: "'d pdflib \<Rightarrow> bytes \<Rightarrow> text_args \<Rightarrow> js_error + bytes" where
  "addTextToPdf lib bytes a =
     and_then (load lib bytes) (\<lambda>pdfDoc.
       let page = resolvePage (pageCount lib pdfDoc) (a_pageIndex a);
           fontName = resolveFontName (a_fontFamily a) (a_fontWeight a) (a_fontStyle a);
           pdfDoc1 = embedFont lib fontName pdfDoc
       in and_then (hexToRgb (rgb lib) (a_color a)) (\<lambda>ink.
            let effectiveSize = real_or (a_size a) 12;
                effectiveLineHeight = real_or (a_lineHeight a) (effectiveSize * 1.2);
                lines = wrapText (str_or (a_text a) []) (widthOfTextAtSize lib fontName)
                          effectiveSize (a_maxWidth a)
            in and_then (draw_lines lib page fontName effectiveSize ink (a_x a) (a_y a)
                           effectiveLineHeight (a_underline a) 0 lines pdfDoc1)
                 (save lib)))"

subsection \<open>addTextFieldToPdf, addCheckBoxToPdf\<close>

record field_args =
  f_pageIndex :: int
  f_x :: real
  f_y :: real
  f_width :: real
  f_height :: real
  f_name :: "string option"

definition addTextFieldToPdf :: "'d pdflib \<Rightarrow> bytes \<Rightarrow> field_args \<Rightarrow> js_error + bytes" where
  "addTextFieldToPdf lib bytes a =
     and_then (load lib bytes) (\<lambda>pdfDoc.
       let page = resolvePage (pageCount lib pdfDoc) (f_pageIndex a);
           pdfDoc1 = embedFont lib Helvetica pdfDoc;
           fieldName = str_or (f_name a) (''TextField-'' @ dateNow lib)
       in and_then (createTextField lib fieldName pdfDoc1) (\<lambda>pdfDoc2.
          and_then (on_page page (\<lambda>k. addToPage lib fieldName k
                      \<lparr>w_x = f_x a, w_y = f_y a, w_width = f_width a, w_height = f_height a\<rparr>
                      pdfDoc2)) (\<lambda>pdfDoc3.
          and_then (updateFieldAppearances lib Helvetica pdfDoc3) (save lib))))"

record checkbox_args =
  c_pageIndex :: int
  c_x :: real
  c_y :: real
  c_size :: real
  c_name :: "string option"

definition addCheckBoxToPdf :: "'d pdflib \<Rightarrow> bytes \<Rightarrow> checkbox_args \<Rightarrow> js_error + bytes" where
  "addCheckBoxToPdf lib bytes a =
     and_then (load lib bytes) (\<lambda>pdfDoc.
       let page = resolvePage (pageCount lib pdfDoc) (c_pageIndex a);
           pdfDoc1 = embedFont lib Helvetica pdfDoc;
           fieldName = str_or (c_name a) (''Checkbox-'' @ dateNow lib)
       in and_then (createCheckBox lib fieldName pdfDoc1) (\<lambda>pdfDoc2.
          and_then (on_page page (\<lambda>k. addToPage lib fieldName k
                      \<lparr>w_x = c_x a, w_y = c_y a, w_width = c_size a, w_height = c_size a\<rparr>
                      pdfDoc2)) (\<lambda>pdfDoc3.
          and_then (updateFieldAppearances lib Helvetica pdfDoc3) (save lib))))"

subsection \<open>setFormFieldValue\<close>

text \<open>\<open>String(v)\<close> and \<open>v ?? ''\<close>.\<close>

fun js_String :: "(jsnum \<Rightarrow> string) \<Rightarrow> jsval \<Rightarrow> string" where
  "js_String n2s JUndefined = ''undefined''"
| "js_String n2s JNull = ''null''"
| "js_String n2s (JBool b) = (if b then ''true'' else ''false'')"
| "js_String n2s (JNum n) = n2s n"
| "js_String n2s (JStr s) = s"

fun nullish_or_empty :: "jsval \<Rightarrow> jsval" where
  "nullish_or_empty JUndefined = JStr []"
| "nullish_or_empty JNull = JStr []"
| "nullish_or_empty v = v"

text \<open>The write to the field that was found, by its kind.\<close>

fun write_field :: "'d pdflib \<Rightarrow> field_kind \<Rightarrow> string \<Rightarrow> jsval \<Rightarrow> 'd \<Rightarrow> js_error + 'd" where
  "write_field lib PDFTextField fieldName v doc =
     setText lib fieldName (js_String (numberToString lib) (nullish_or_empty v)) doc"
| "write_field lib PDFCheckBox fieldName v doc =
     (if truthy v then check lib fieldName doc else uncheck lib fieldName doc)"
| "write_field lib PDFDropdown fieldName v doc =
     (if truthy v then select lib fieldName (js_String (numberToString lib) v) doc else Inr doc)"
| "write_field lib PDFOptionList fieldName v doc =
     (if truthy v then select lib fieldName (js_String (numberToString lib) v) doc else Inr doc)"
| "write_field lib PDFRadioGroup fieldName v doc =
     (if truthy v then select lib fieldName (js_String (numberToString lib) v) doc else Inr doc)"
| "write_field lib OtherField fieldName v doc = Inr doc"

definition setFormFieldValue :: "'d pdflib \<Rightarrow> bytes \<Rightarrow> string \<Rightarrow> jsval \<Rightarrow> js_error + bytes" where
  "setFormFieldValue lib bytes fieldName v =
     and_then (load lib bytes) (\<lambda>pdfDoc.
       let pdfDoc1 = embedFont lib Helvetica pdfDoc in
       case getField lib pdfDoc1 fieldName of
         None \<Rightarrow> Inr bytes
       | Some kind \<Rightarrow>
           and_then (write_field lib kind fieldName v pdfDoc1) (\<lambda>pdfDoc2.
           and_then (updateFieldAppearances lib Helvetica pdfDoc2) (save lib)))"

subsection \<open>addSignatureToPdf\<close>

record signature_args =
  s_pageIndex :: int
  s_x :: real
  s_y :: real
  s_width :: "real option"
  s_height :: "real option"
  s_dataUrl :: "string option"

text \<open>Division and multiplication of numbers, a real number on one side.\<close>

definition opt_num :: "real option \<Rightarrow> jsnum" where
  "opt_num v = (case v of None \<Rightarrow> NaN | Some r \<Rightarrow> Fin r)"

fun js_quot :: "jsnum \<Rightarrow> real \<Rightarrow> jsnum" where
  "js_quot (Fin a) d =
     (if d \<noteq> 0 then Fin (a / d) else if a = 0 then NaN else if 0 < a then PosInf else NegInf)"
| "js_quot NaN d = NaN"
| "js_quot PosInf d = (if 0 \<le> d then PosInf else NegInf)"
| "js_quot NegInf d = (if 0 \<le> d then NegInf else PosInf)"

fun js_scale :: "real \<Rightarrow> jsnum \<Rightarrow> jsnum" where
  "js_scale r (Fin a) = Fin (r * a)"
| "js_scale r NaN = NaN"
| "js_scale r PosInf = (if r = 0 then NaN else if 0 < r then PosInf else NegInf)"
| "js_scale r NegInf = (if r = 0 then NaN else if 0 < r then NegInf else PosInf)"

definition falsy_num :: "real option \<Rightarrow> bool" where
  "falsy_num v = (v = None \<or> v = Some 0)"

definition addSignatureToPdf :: "'d pdflib \<Rightarrow> bytes \<Rightarrow> signature_args \<Rightarrow> js_error + bytes" where
  "addSignatureToPdf lib bytes a =
     and_then (load lib bytes) (\<lambda>pdfDoc.
       let page = resolvePage (pageCount lib pdfDoc) (s_pageIndex a) in
       and_then (dataUrlToBytes lib (s_dataUrl a)) (\<lambda>imageBytes.
         case imageBytes of
           None \<Rightarrow> Inr bytes
         | Some ib \<Rightarrow>
             and_then (embedPng lib ib pdfDoc) (\<lambda>(pngImage, pdfDoc1).
               let targetWidth = map_option Fin (s_width a);
                   targetHeight = map_option Fin (s_height a);
                   (targetWidth, targetHeight) =
                     (if falsy_num (s_height a)
                      then (targetWidth,
                            Some (js_scale (png_height pngImage)
                                    (js_quot (opt_num (s_width a)) (png_width pngImage))))
                      else if falsy_num (s_width a)
                      then (Some (js_scale (png_width pngImage)
                                    (js_quot (opt_num (s_height a)) (png_height pngImage))),
                            targetHeight)
                      else (targetWidth, targetHeight))
               in and_then (on_page page (\<lambda>k. drawImage lib k pngImage
                              \<lparr>i_x = s_x a, i_y = s_y a, i_width = targetWidth,
                               i_height = targetHeight\<rparr> pdfDoc1))
                    (save lib))))"


section \<open>The editor (App.jsx)\<close>

subsection \<open>Drafts, viewports and the application state\<close>

datatype tool = PAN | TEXT | TEXT_FIELD | CHECKBOX | SIGNATURE

text \<open>
  A draft object.  Fields a draft of some type does not carry are
  \<open>undefined\<close> in the source and \<open>None\<close> here.
\<close>

record draft =
  d_id :: string
  d_type :: tool
  d_pageIndex :: int
  d_x :: real
  d_y :: real
  d_width :: real
  d_height :: real
  d_fieldName :: "string option"
  d_dataUrl :: "string option"
  d_text :: "string option"
  d_size :: "real option"
  d_fontFamily :: "string option"
  d_fontWeight :: "string option"
  d_fontStyle :: "string option"
  d_underline :: "bool option"
  d_color :: "string option"

text \<open>
  A pdf.js page viewport: its size in screen pixels and the map from a
  screen point to a point of PDF space.
\<close>

record viewport =
  vp_width :: real
  vp_height :: real
  convertToPdfPoint :: "real \<Rightarrow> real \<Rightarrow> real \<times> real"

text \<open>Reading a JavaScript array at a number: \<open>undefined\<close> outside the array.\<close>

definition array_get :: "'a list \<Rightarrow> int \<Rightarrow> 'a option" where
  "array_get xs i = (if 0 \<le> i \<and> nat i < length xs then Some (xs ! nat i) else None)"

definition clamp :: "real \<Rightarrow> real \<Rightarrow> real \<Rightarrow> real" where
  "clamp v lo hi = min (max v lo) hi"

text \<open>The base rectangle of a blank draft, all optional fields absent.\<close>

definition blank_draft :: "string \<Rightarrow> tool \<Rightarrow> int \<Rightarrow> real \<Rightarrow> real \<Rightarrow> real \<Rightarrow> real \<Rightarrow> draft" where
  "blank_draft i t p x y w h =
     \<lparr>d_id = i, d_type = t, d_pageIndex = p, d_x = x, d_y = y, d_width = w, d_height = h,
      d_fieldName = None, d_dataUrl = None, d_text = None, d_size = None,
      d_fontFamily = None, d_fontWeight = None, d_fontStyle = None,
      d_underline = None, d_color = None\<rparr>"

subsection \<open>Rescaling the drafts when the render scale changes\<close>

text \<open>
  The effect that follows a change of \<open>scale\<close>.  JavaScript rounds the
  result of every division and multiplication to a double; the rounding is
  the parameter \<open>fl\<close> (the identity gives exact arithmetic).  The effect
  returns the new draft list and the new value of \<open>lastScaleRef\<close>.
\<close>

definition rescale_draft :: "(real \<Rightarrow> real) \<Rightarrow> real \<Rightarrow> draft \<Rightarrow> draft" where
  "rescale_draft fl ratio d =
     d\<lparr>d_x := fl (d_x d * ratio), d_y := fl (d_y d * ratio),
       d_width := fl (d_width d * ratio), d_height := fl (d_height d * ratio)\<rparr>"

definition rescale_effect :: "(real \<Rightarrow> real) \<Rightarrow> real \<Rightarrow> draft list \<times> real \<Rightarrow> draft list \<times> real" where
  "rescale_effect fl scale st =
     (let (ds, lastScale) = st in
      if ds \<noteq> [] \<and> lastScale \<noteq> 0 \<and> scale \<noteq> lastScale
      then (map (rescale_draft fl (fl (scale / lastScale))) ds, scale)
      else (ds, scale))"

text \<open>
  Two drafts that differ at most in their rectangles, each coordinate of
  the second within the relative distance \<open>e\<close> of the first's.
\<close>

definition rect_close :: "real \<Rightarrow> draft \<Rightarrow> draft \<Rightarrow> bool" where
  "rect_close e d d' =
     (d' = d\<lparr>d_x := d_x d', d_y := d_y d', d_width := d_width d', d_height := d_height d'\<rparr> \<and>
      \<bar>d_x d' - d_x d\<bar> \<le> e * \<bar>d_x d\<bar> \<and> \<bar>d_y d' - d_y d\<bar> \<le> e * \<bar>d_y d\<bar> \<and>
      \<bar>d_width d' - d_width d\<bar> \<le> e * \<bar>d_width d\<bar> \<and>
      \<bar>d_height d' - d_height d\<bar> \<le> e * \<bar>d_height d\<bar>)"

subsection \<open>Creating and dragging drafts\<close>

text \<open>\<open>placementDefaults[activeTool] || { width: 140, height: 40 }\<close>\<close>

fun placementDefaults :: "tool \<Rightarrow> real \<times> real" where
  "placementDefaults TEXT_FIELD = (220, 36)"
| "placementDefaults CHECKBOX = (28, 28)"
| "placementDefaults SIGNATURE = (200, 80)"
| "placementDefaults _ = (140, 40)"

text \<open>
  \<open>handleCanvasClick\<close>: the part after the canvas under the pointer has been
  found.  \<open>None\<close> is returned where the handler returns without adding a
  draft.  \<open>newId\<close> is the value of \<open>createDraftId()\<close>.
\<close>

definition handleCanvasClick ::
  "bool \<Rightarrow> bool \<Rightarrow> tool \<Rightarrow> string \<Rightarrow> string \<Rightarrow> viewport list \<Rightarrow> string \<Rightarrow> int \<Rightarrow> real \<Rightarrow> real
     \<Rightarrow> draft option" where
  "handleCanvasClick hasPdf isSigned activeTool signatureDataUrl fieldNameDraft viewports newId
       pageIndex clickX clickY =
     (if \<not> hasPdf \<or> isSigned then None
      else if activeTool = PAN then None
      else if activeTool = TEXT_FIELD \<or> activeTool = TEXT then None
      else case array_get viewports pageIndex of
        None \<Rightarrow> None
      | Some viewport \<Rightarrow>
          let (width, height) = placementDefaults activeTool in
          if activeTool = SIGNATURE \<and> signatureDataUrl = [] then None
          else
            let maxX = vp_width viewport - width;
                maxY = vp_height viewport - height;
                d = blank_draft newId activeTool pageIndex
                      (clamp (clickX - width / 2) 0 maxX) (clamp (clickY - height / 2) 0 maxY)
                      width height;
                d1 = (if activeTool = TEXT_FIELD \<or> activeTool = CHECKBOX
                      then d\<lparr>d_fieldName := Some (js_trim fieldNameDraft)\<rparr> else d);
                d2 = (if activeTool = SIGNATURE then d1\<lparr>d_dataUrl := Some signatureDataUrl\<rparr> else d1)
            in Some d2)"

text \<open>
  The rubber band of a drag-to-draw gesture (\<open>textFieldDraft\<close>,
  \<open>textDraftBox\<close>), set at pointer-down and replaced at every pointer-move.
\<close>

record band =
  b_pageIndex :: int
  b_x :: real
  b_y :: real
  b_width :: real
  b_height :: real

definition pointerDown_band :: "int \<Rightarrow> real \<Rightarrow> real \<Rightarrow> band" where
  "pointerDown_band pageIndex startX startY =
     \<lparr>b_pageIndex = pageIndex, b_x = startX, b_y = startY, b_width = 1, b_height = 1\<rparr>"

text \<open>
  \<open>handleTextFieldPointerMove\<close> and \<open>handleTextPointerMove\<close> (the same
  body): \<open>px\<close>, \<open>py\<close> are the pointer's coordinates relative to the canvas.
  Without a viewport the band is left as it is.
\<close>

definition pointerMove_band :: "viewport list \<Rightarrow> int \<Rightarrow> real \<Rightarrow> real \<Rightarrow> real \<Rightarrow> real \<Rightarrow> band \<Rightarrow> band" where
  "pointerMove_band viewports pageIndex startX startY px py b =
     (case array_get viewports pageIndex of
        None \<Rightarrow> b
      | Some viewport \<Rightarrow>
          let x = clamp px 0 (vp_width viewport);
              y = clamp py 0 (vp_height viewport)
          in \<lparr>b_pageIndex = pageIndex, b_x = min startX x, b_y = min startY y,
               b_width = \<bar>x - startX\<bar>, b_height = \<bar>y - startY\<bar>\<rparr>)"

definition handleTextFieldPointerUp :: "string \<Rightarrow> string \<Rightarrow> band option \<Rightarrow> draft option" where
  "handleTextFieldPointerUp newId fieldNameDraft draftState =
     (case draftState of
        None \<Rightarrow> None
      | Some b \<Rightarrow>
          if b_width b < 8 \<or> b_height b < 8 then None
          else Some ((blank_draft newId TEXT_FIELD (b_pageIndex b) (b_x b) (b_y b)
                        (b_width b) (b_height b))\<lparr>d_fieldName := Some (js_trim fieldNameDraft)\<rparr>))"

text \<open>\<open>value || 0\<close> on a number that is not \<open>NaN\<close>.\<close>

definition or0 :: "real option \<Rightarrow> real" where
  "or0 v = (case v of None \<Rightarrow> 0 | Some r \<Rightarrow> r)"

text \<open>\<open>Math.round\<close>: the nearest integer, halves rounded up.\<close>

definition js_round :: "real \<Rightarrow> real" where
  "js_round r = of_int \<lfloor>r + 1 / 2\<rfloor>"

definition handleTextPointerUp ::
  "string \<Rightarrow> string \<Rightarrow> viewport list \<Rightarrow> int \<Rightarrow> real \<Rightarrow> real \<Rightarrow> band option \<Rightarrow> draft" where
  "handleTextPointerUp newId textDraft viewports pageIndex dragStartX dragStartY draftState =
     (let minWidth = 140;
          minHeight = 32;
          viewport = array_get viewports pageIndex;
          width = max (or0 (map_option b_width draftState)) minWidth;
          height = max (or0 (map_option b_height draftState)) minHeight;
          startX = (case draftState of None \<Rightarrow> dragStartX | Some b \<Rightarrow> b_x b);
          startY = (case draftState of None \<Rightarrow> dragStartY | Some b \<Rightarrow> b_y b);
          maxX = (case viewport of None \<Rightarrow> 0 | Some v \<Rightarrow> max (vp_width v - width) 0);
          maxY = (case viewport of None \<Rightarrow> 0 | Some v \<Rightarrow> max (vp_height v - height) 0)
      in (blank_draft newId TEXT pageIndex (clamp startX 0 maxX) (clamp startY 0 maxY) width height)
           \<lparr>d_text := Some (js_trim textDraft),
            d_size := Some (clamp (js_round (height * 0.6)) 10 36),
            d_fontFamily := Some ''helvetica'', d_fontWeight := Some ''normal'',
            d_fontStyle := Some ''normal'', d_underline := Some False,
            d_color := Some ''#0d1117''\<rparr>)"

definition clampDraft :: "viewport list \<Rightarrow> draft \<Rightarrow> draft" where
  "clampDraft viewports next =
     (case array_get viewports (d_pageIndex next) of
        None \<Rightarrow> next
      | Some viewport \<Rightarrow>
          let width = min (d_width next) (vp_width viewport);
              height = min (d_height next) (vp_height viewport);
              maxX = max 0 (vp_width viewport - width);
              maxY = max 0 (vp_height viewport - height)
          in next\<lparr>d_width := width, d_height := height,
                   d_x := clamp (d_x next) 0 maxX, d_y := clamp (d_y next) 0 maxY\<rparr>)"

datatype drag_mode = Move | Resize

text \<open>
  \<open>handleDraftPointerMove\<close>: the draft that replaces the dragged one.
  \<open>handle\<close> is the name of the resize handle, a string of the letters
  \<open>n\<close>, \<open>s\<close>, \<open>e\<close>, \<open>w\<close>.
\<close>

definition handleDraftPointerMove ::
  "viewport list \<Rightarrow> draft \<Rightarrow> drag_mode \<Rightarrow> string \<Rightarrow> real \<Rightarrow> real \<Rightarrow> draft" where
  "handleDraftPointerMove viewports dragDraft mode handle deltaX deltaY =
     (let minSize = (if d_type dragDraft = CHECKBOX then 18 else 36 :: real);
          next = dragDraft;
          next = (case mode of
             Move \<Rightarrow> next\<lparr>d_x := d_x dragDraft + deltaX, d_y := d_y dragDraft + deltaY\<rparr>
           | Resize \<Rightarrow>
               let n1 = (if CHR ''e'' \<in> set handle
                         then next\<lparr>d_width := max minSize (d_width dragDraft + deltaX)\<rparr> else next);
                   n2 = (if CHR ''s'' \<in> set handle
                         then n1\<lparr>d_height := max minSize (d_height dragDraft + deltaY)\<rparr> else n1);
                   n3 = (if CHR ''w'' \<in> set handle
                         then let newWidth = max minSize (d_width dragDraft - deltaX)
                              in n2\<lparr>d_x := d_x dragDraft + (d_width dragDraft - newWidth),
                                    d_width := newWidth\<rparr>
                         else n2);
                   n4 = (if CHR ''n'' \<in> set handle
                         then let newHeight = max minSize (d_height dragDraft - deltaY)
                              in n3\<lparr>d_y := d_y dragDraft + (d_height dragDraft - newHeight),
                                    d_height := newHeight\<rparr>
                         else n3)
               in n4)
      in clampDraft viewports next)"

text \<open>The rectangle of a draft lies inside the viewport of its page.\<close>

definition inside_viewport :: "viewport \<Rightarrow> draft \<Rightarrow> bool" where
  "inside_viewport v d =
     (0 \<le> d_x d \<and> d_x d + d_width d \<le> vp_width v \<and>
      0 \<le> d_y d \<and> d_y d + d_height d \<le> vp_height v)"

section \<open>The signing handler (electron/main.cjs)\<close>

subsection \<open>Number conversions and \<open>Math.min\<close>, \<open>Math.max\<close>\<close>

text \<open>
  \<open>Number(v)\<close>.  The conversion of a string to a number is the parameter
  \<open>s2n\<close>.
\<close>

fun toNumber :: "(string \<Rightarrow> jsnum) \<Rightarrow> jsval \<Rightarrow> jsnum" where
  "toNumber s2n JUndefined = NaN"
| "toNumber s2n JNull = Fin 0"
| "toNumber s2n (JBool b) = Fin (if b then 1 else 0)"
| "toNumber s2n (JNum n) = n"
| "toNumber s2n (JStr s) = s2n s"

text \<open>\<open>n || d\<close> on numbers.\<close>

definition num_or :: "jsnum \<Rightarrow> jsnum \<Rightarrow> jsnum" where
  "num_or n d = (if num_truthy n then n else d)"

text \<open>The order of the numbers other than \<open>NaN\<close>.\<close>

fun num_le :: "jsnum \<Rightarrow> jsnum \<Rightarrow> bool" where
  "num_le NaN _ = False"
| "num_le _ NaN = False"
| "num_le NegInf _ = True"
| "num_le _ PosInf = True"
| "num_le (Fin a) (Fin b) = (a \<le> b)"
| "num_le _ _ = False"

definition js_max :: "jsnum \<Rightarrow> jsnum \<Rightarrow> jsnum" where
  "js_max a b = (if a = NaN \<or> b = NaN then NaN else if num_le a b then b else a)"

definition js_min :: "jsnum \<Rightarrow> jsnum \<Rightarrow> jsnum" where
  "js_min a b = (if a = NaN \<or> b = NaN then NaN else if num_le a b then a else b)"

fun num_add :: "jsnum \<Rightarrow> jsnum \<Rightarrow> jsnum" where
  "num_add NaN _ = NaN"
| "num_add _ NaN = NaN"
| "num_add (Fin a) (Fin b) = Fin (a + b)"
| "num_add PosInf NegInf = NaN"
| "num_add NegInf PosInf = NaN"
| "num_add PosInf _ = PosInf"
| "num_add _ PosInf = PosInf"
| "num_add NegInf _ = NegInf"
| "num_add _ NegInf = NegInf"

text \<open>\<open>pages[i]\<close> for a number \<open>i\<close> and an array of \<open>n\<close> pages.\<close>

fun page_at :: "jsnum \<Rightarrow> nat \<Rightarrow> nat option" where
  "page_at (Fin r) n =
     (if r = of_int \<lfloor>r\<rfloor> \<and> 0 \<le> r \<and> nat \<lfloor>r\<rfloor> < n then Some (nat \<lfloor>r\<rfloor>) else None)"
| "page_at _ n = None"

subsection \<open>The payload and the collaborators\<close>

datatype rect_arg =
    RectArray "jsnum list"
  | RectObject "jsnum option" "jsnum option" "jsnum option" "jsnum option"
  | RectMissing

record sign_payload =
  pdfBase64 :: jsval
  certBase64 :: jsval
  password :: jsval
  p_name :: jsval
  p_reason :: jsval
  p_location :: jsval
  p_contactInfo :: jsval
  p_pageIndex :: jsval
  p_rect :: rect_arg

text \<open>\<open>payload || {}\<close>: every field of a missing payload is \<open>undefined\<close>.\<close>

definition no_payload :: sign_payload where
  "no_payload = \<lparr>pdfBase64 = JUndefined, certBase64 = JUndefined, password = JUndefined,
     p_name = JUndefined, p_reason = JUndefined, p_location = JUndefined,
     p_contactInfo = JUndefined, p_pageIndex = JUndefined, p_rect = RectMissing\<rparr>"

record placeholder_args =
  ph_page :: "nat option"
  ph_reason :: jsval
  ph_contactInfo :: jsval
  ph_name :: jsval
  ph_location :: jsval
  ph_signatureLength :: nat
  ph_widgetRect :: "jsnum list"

text \<open>
  What the handler uses of Node, pdf-lib and the \<open>@signpdf\<close> modules, over a
  type \<open>'d\<close> of loaded documents.  \<open>importModules\<close> is the outcome of the three
  dynamic imports: an error when one of them is rejected, otherwise whether
  \<open>pdflibAddPlaceholder\<close>, \<open>P12Signer\<close> and \<open>signPdf.sign\<close> are all there.
\<close>

record 'd sign_env =
  bufferFromBase64 :: "string \<Rightarrow> bytes"
  bufferToBase64 :: "bytes \<Rightarrow> string"
  stringToNumber :: "string \<Rightarrow> jsnum"
  importModules :: "js_error + bool"
  loadPdf :: "bytes \<Rightarrow> js_error + 'd"
  pageCountOf :: "'d \<Rightarrow> nat"
  pdflibAddPlaceholder :: "placeholder_args \<Rightarrow> 'd \<Rightarrow> js_error + 'd"
  saveNoObjectStreams :: "'d \<Rightarrow> js_error + bytes"
  signP12 :: "bytes \<Rightarrow> bytes \<Rightarrow> jsval \<Rightarrow> js_error + bytes"

text \<open>The collaborators the handler has called, in order.\<close>

datatype call =
    Import
  | Load
  | AddPlaceholder placeholder_args
  | Save
  | Sign

datatype sign_result = SignError string | SignData string

definition MAX_PDF_BYTES :: nat where
  "MAX_PDF_BYTES = 50 * 1024 * 1024"

definition MAX_CERT_BYTES :: nat where
  "MAX_CERT_BYTES = 5 * 1024 * 1024"

subsection \<open>decodeBase64Payload\<close>

definition decodeBase64Payload :: "(string \<Rightarrow> bytes) \<Rightarrow> jsval \<Rightarrow> nat \<Rightarrow> string \<Rightarrow> js_error + bytes" where
  "decodeBase64Payload fromB64 data maxBytes label =
     (case data of
        JStr s \<Rightarrow>
          if s = [] then Inl (Error (label @ '' data is missing.''))
          else if (length s * 3) div 4 > maxBytes then Inl (Error (label @ '' is too large.''))
          else
            let buffer = fromB64 s in
            if length buffer > maxBytes then Inl (Error (label @ '' is too large.''))
            else Inr buffer
      | _ \<Rightarrow> Inl (Error (label @ '' data is missing.'')))"

subsection \<open>The handler of \<open>pdf:signWithP12\<close>\<close>

text \<open>\<open>v || d\<close> on values.\<close>

definition val_or :: "jsval \<Rightarrow> jsval \<Rightarrow> jsval" where
  "val_or v d = (if truthy v then v else d)"

definition num_opt_or0 :: "jsnum option \<Rightarrow> jsnum" where
  "num_opt_or0 v = (case v of None \<Rightarrow> Fin 0 | Some n \<Rightarrow> num_or n (Fin 0))"

definition safePageIndex :: "(string \<Rightarrow> jsnum) \<Rightarrow> jsval \<Rightarrow> nat \<Rightarrow> jsnum" where
  "safePageIndex s2n pageIndex pagesLength =
     js_min (js_max (num_or (toNumber s2n pageIndex) (Fin 0)) (Fin 0))
            (Fin (of_int (int pagesLength - 1)))"

fun widgetRect :: "rect_arg \<Rightarrow> jsnum list" where
  "widgetRect (RectArray xs) = xs"
| "widgetRect (RectObject x y w h) =
     [num_opt_or0 x, num_opt_or0 y,
      num_add (num_opt_or0 x) (num_opt_or0 w), num_add (num_opt_or0 y) (num_opt_or0 h)]"
| "widgetRect RectMissing = [Fin 0, Fin 0, Fin 0, Fin 0]"

text \<open>The \<open>catch\<close> of the handler: \<open>{ error: error.message || 'Failed to sign PDF.' }\<close>.\<close>

fun caught :: "js_error \<Rightarrow> sign_result" where
  "caught (Error m) = SignError (if m = [] then ''Failed to sign PDF.'' else m)"

definition signWithP12 :: "'d sign_env \<Rightarrow> sign_payload option \<Rightarrow> sign_result \<times> call list" where
  "signWithP12 env payload =
     (let p = (case payload of None \<Rightarrow> no_payload | Some q \<Rightarrow> q) in
      case decodeBase64Payload (bufferFromBase64 env) (pdfBase64 p) MAX_PDF_BYTES ''PDF'' of
        Inl e \<Rightarrow> (caught e, [])
      | Inr pdfBuffer \<Rightarrow>
      case decodeBase64Payload (bufferFromBase64 env) (certBase64 p) MAX_CERT_BYTES ''Certificate'' of
        Inl e \<Rightarrow> (caught e, [])
      | Inr certBuffer \<Rightarrow>
      case importModules env of
        Inl e \<Rightarrow> (caught e, [Import])
      | Inr available \<Rightarrow>
      if \<not> available then (SignError ''Signing modules not available.'', [Import])
      else
      case loadPdf env pdfBuffer of
        Inl e \<Rightarrow> (caught e, [Import, Load])
      | Inr pdfDoc \<Rightarrow>
      let safe = safePageIndex (stringToNumber env) (p_pageIndex p) (pageCountOf env pdfDoc);
          args = \<lparr>ph_page = page_at safe (pageCountOf env pdfDoc),
                  ph_reason = val_or (p_reason p) (JStr ''Signed with FillForge''),
                  ph_contactInfo = val_or (p_contactInfo p) (JStr []),
                  ph_name = val_or (p_name p) (JStr ''FillForge User''),
                  ph_location = val_or (p_location p) (JStr []),
                  ph_signatureLength = 8192,
                  ph_widgetRect = widgetRect (p_rect p)\<rparr>
      in
      case pdflibAddPlaceholder env args pdfDoc of
        Inl e \<Rightarrow> (caught e, [Import, Load, AddPlaceholder args])
      | Inr withPlaceholder \<Rightarrow>
      case saveNoObjectStreams env withPlaceholder of
        Inl e \<Rightarrow> (caught e, [Import, Load, AddPlaceholder args, Save])
      | Inr pdfWithPlaceholder \<Rightarrow>
      case signP12 env pdfWithPlaceholder certBuffer (val_or (password p) (JStr [])) of
        Inl e \<Rightarrow> (caught e, [Import, Load, AddPlaceholder args, Save, Sign])
      | Inr signedPdf \<Rightarrow>
          (SignData (bufferToBase64 env signedPdf), [Import, Load, AddPlaceholder args, Save, Sign]))"

text \<open>\<open>withTrustedSender\<close>, with the outcome of \<open>isTrustedSender(event)\<close>.\<close>

definition withTrustedSender ::
  "bool \<Rightarrow> (sign_payload option \<Rightarrow> sign_result \<times> call list) \<Rightarrow> sign_payload option
     \<Rightarrow> sign_result \<times> call list" where
  "withTrustedSender trusted handler payload =
     (if \<not> trusted then (SignError ''Untrusted request origin.'', []) else handler payload)"

definition pdf_signWithP12 :: "'d sign_env \<Rightarrow> bool \<Rightarrow> sign_payload option \<Rightarrow> sign_result \<times> call list" where
  "pdf_signWithP12 env trusted = withTrustedSender trusted (signWithP12 env)"


section \<open>Export (handleExport in App.jsx)\<close>

subsection \<open>The application state and its collaborators\<close>

text \<open>What \<open>normalizePdfBytes\<close> tells apart.\<close>

datatype pdf_data = U8 bytes | ArrayBuf bytes | Base64 string

text \<open>
  The calls that leave the editor: the console, the dialogs and writes of
  the desktop bridge, the signing request and the browser download.
\<close>

datatype effect =
    ConsoleError string js_error
  | SavePdfPath string
  | SignPdf sign_payload
  | WritePdf string string
  | SavePdf string string
  | Download string bytes

record app =
  pdfBytes :: "pdf_data option"
  pdfName :: string
  drafts :: "draft list"
  selectedDraftId :: "string option"
  signError :: string
  statusMessage :: "(string \<times> string) option"
  isSigned :: bool
  certificateData :: string
  certificatePassword :: string
  signerName :: string
  signReason :: string
  signLocation :: string
  signContact :: string
  includeVisualSignature :: bool
  pageViewports :: "viewport list"
  effects :: "effect list"

text \<open>
  \<open>window.pdfApi\<close>: a method that is absent is \<open>None\<close>.  \<open>savePdfPath\<close>
  gives the chosen path (\<open>None\<close> when the result has none); \<open>signPdf\<close>
  gives the handler's result (\<open>None\<close> when there is none).
\<close>

record pdfApi =
  api_savePdfPath :: "(string \<Rightarrow> js_error + string option) option"
  api_signPdf :: "(sign_payload \<Rightarrow> js_error + sign_result option) option"
  api_writePdf :: "(string \<Rightarrow> string \<Rightarrow> js_error + unit) option"
  api_savePdf :: "(string \<Rightarrow> string \<Rightarrow> js_error + unit) option"

definition flashStatus :: "string \<Rightarrow> string \<Rightarrow> app \<Rightarrow> app" where
  "flashStatus message tone st = st\<lparr>statusMessage := Some (message, tone)\<rparr>"

definition log_effect :: "effect \<Rightarrow> app \<Rightarrow> app" where
  "log_effect e st = st\<lparr>effects := effects st @ [e]\<rparr>"

text \<open>Two states with the same document bytes and the same drafts.\<close>

definition same_document :: "app \<Rightarrow> app \<Rightarrow> bool" where
  "same_document s t = (pdfBytes s = pdfBytes t \<and> drafts s = drafts t)"

subsection \<open>normalizePdfBytes, hasPdfHeader, resolveDraftRect\<close>

definition normalizePdfBytes :: "(string \<Rightarrow> js_error + bytes) \<Rightarrow> pdf_data \<Rightarrow> bytes option" where
  "normalizePdfBytes base64ToBytes v =
     (case v of
        U8 b \<Rightarrow> Some b
      | ArrayBuf b \<Rightarrow> Some b
      | Base64 s \<Rightarrow>
          if s = [] then None
          else (case base64ToBytes s of Inl e \<Rightarrow> None | Inr b \<Rightarrow> Some b))"

definition hasPdfHeader :: "bytes \<Rightarrow> bool" where
  "hasPdfHeader b = (\<not> length b < 4 \<and> take 4 b = [0x25, 0x50, 0x44, 0x46])"

record pdf_rect =
  r_pageIndex :: int
  r_x :: real
  r_y :: real
  r_width :: real
  r_height :: real

definition resolveDraftRect :: "viewport list \<Rightarrow> draft \<Rightarrow> pdf_rect option" where
  "resolveDraftRect viewports d =
     (case array_get viewports (d_pageIndex d) of
        None \<Rightarrow> None
      | Some viewport \<Rightarrow>
          let (pdfX1, pdfY1) = convertToPdfPoint viewport (d_x d) (d_y d);
              (pdfX2, pdfY2) = convertToPdfPoint viewport (d_x d + d_width d) (d_y d + d_height d)
          in Some \<lparr>r_pageIndex = d_pageIndex d, r_x = min pdfX1 pdfX2, r_y = min pdfY1 pdfY2,
                    r_width = \<bar>pdfX2 - pdfX1\<bar>, r_height = \<bar>pdfY2 - pdfY1\<bar>\<rparr>)"

subsection \<open>The loop over the drafts\<close>

definition ensurePdf :: "bytes \<Rightarrow> string \<Rightarrow> js_error + bytes" where
  "ensurePdf b context =
     (if \<not> hasPdfHeader b then Inl (Error (''Invalid PDF data after '' @ context @ ''.''))
      else Inr b)"

text \<open>
  One round of \<open>for (const draft of drafts)\<close>: the new value of
  \<open>nextBytes\<close>, or the error thrown.  \<open>continue\<close> leaves \<open>nextBytes\<close> as it is.
\<close>

definition text_call :: "pdf_rect \<Rightarrow> draft \<Rightarrow> text_args" where
  "text_call rect d =
     (let textY = r_y rect + r_height rect - min (real_or (d_size d) 16) (r_height rect);
          size' = real_or (d_size d) 16
      in \<lparr>a_pageIndex = r_pageIndex rect, a_x = r_x rect + 4, a_y = textY,
          a_text = Some (str_or (d_text d) []), a_size = Some size',
          a_fontFamily = Some (str_or (d_fontFamily d) ''helvetica''),
          a_fontWeight = Some (str_or (d_fontWeight d) ''normal''),
          a_fontStyle = Some (str_or (d_fontStyle d) ''normal''),
          a_underline = (d_underline d = Some True),
          a_color = Some (str_or (d_color d) ''#0d1117''),
          a_maxWidth = Some (max (r_width rect - 8) 40),
          a_lineHeight = Some (size' * 1.2)\<rparr>)"

text \<open>\<open>draft.fieldName || undefined\<close>\<close>

definition name_or_undefined :: "string option \<Rightarrow> string option" where
  "name_or_undefined n = (case n of None \<Rightarrow> None | Some v \<Rightarrow> if v = [] then None else Some v)"

definition field_call :: "pdf_rect \<Rightarrow> draft \<Rightarrow> field_args" where
  "field_call rect d =
     \<lparr>f_pageIndex = r_pageIndex rect, f_x = r_x rect, f_y = r_y rect,
      f_width = r_width rect, f_height = r_height rect,
      f_name = name_or_undefined (d_fieldName d)\<rparr>"

definition checkbox_call :: "pdf_rect \<Rightarrow> draft \<Rightarrow> checkbox_args" where
  "checkbox_call rect d =
     \<lparr>c_pageIndex = r_pageIndex rect, c_x = r_x rect, c_y = r_y rect,
      c_size = min (r_width rect) (r_height rect),
      c_name = name_or_undefined (d_fieldName d)\<rparr>"

definition signature_call :: "pdf_rect \<Rightarrow> draft \<Rightarrow> signature_args" where
  "signature_call rect d =
     \<lparr>s_pageIndex = r_pageIndex rect, s_x = r_x rect, s_y = r_y rect,
      s_width = Some (r_width rect), s_height = Some (r_height rect),
      s_dataUrl = d_dataUrl d\<rparr>"

definition export_draft :: "'d pdflib \<Rightarrow> viewport list \<Rightarrow> bool \<Rightarrow> draft \<Rightarrow> bytes \<Rightarrow> js_error + bytes" where
  "export_draft lib viewports includeVisual d nextBytes =
     (case resolveDraftRect viewports d of
        None \<Rightarrow> Inr nextBytes
      | Some rect \<Rightarrow>
          (case d_type d of
             TEXT \<Rightarrow>
               and_then (addTextToPdf lib nextBytes (text_call rect d))
                 (\<lambda>b. ensurePdf b ''adding text'')
           | TEXT_FIELD \<Rightarrow>
               and_then (addTextFieldToPdf lib nextBytes (field_call rect d))
                 (\<lambda>b. ensurePdf b ''adding text field'')
           | CHECKBOX \<Rightarrow>
               and_then (addCheckBoxToPdf lib nextBytes (checkbox_call rect d))
                 (\<lambda>b. ensurePdf b ''adding checkbox'')
           | SIGNATURE \<Rightarrow>
               if \<not> includeVisual then Inr nextBytes
               else if d_dataUrl d = None \<or> d_dataUrl d = Some [] then Inr nextBytes
               else and_then (addSignatureToPdf lib nextBytes (signature_call rect d))
                      (\<lambda>b. ensurePdf b ''adding signature'')
           | PAN \<Rightarrow> Inr nextBytes))"

fun export_drafts :: "'d pdflib \<Rightarrow> viewport list \<Rightarrow> bool \<Rightarrow> draft list \<Rightarrow> bytes \<Rightarrow> js_error + bytes" where
  "export_drafts lib viewports includeVisual [] nextBytes = Inr nextBytes"
| "export_drafts lib viewports includeVisual (d # ds) nextBytes =
     (case export_draft lib viewports includeVisual d nextBytes of
        Inl e \<Rightarrow> Inl e
      | Inr b \<Rightarrow> export_drafts lib viewports includeVisual ds b)"

text \<open>
  The round of the loop for draft \<open>d\<close>, entered with the bytes \<open>b\<close>, makes the
  call named \<open>context\<close>, and the call returns the bytes \<open>out\<close>.
\<close>

definition step_yields ::
  "'d pdflib \<Rightarrow> viewport list \<Rightarrow> bool \<Rightarrow> draft \<Rightarrow> bytes \<Rightarrow> string \<Rightarrow> bytes \<Rightarrow> bool" where
  "step_yields lib viewports includeVisual d b context out =
     (case resolveDraftRect viewports d of
        None \<Rightarrow> False
      | Some rect \<Rightarrow>
          (d_type d = TEXT \<and> context = ''adding text'' \<and>
             addTextToPdf lib b (text_call rect d) = Inr out) \<or>
          (d_type d = TEXT_FIELD \<and> context = ''adding text field'' \<and>
             addTextFieldToPdf lib b (field_call rect d) = Inr out) \<or>
          (d_type d = CHECKBOX \<and> context = ''adding checkbox'' \<and>
             addCheckBoxToPdf lib b (checkbox_call rect d) = Inr out) \<or>
          (d_type d = SIGNATURE \<and> context = ''adding signature'' \<and> includeVisual \<and>
             d_dataUrl d \<noteq> None \<and> d_dataUrl d \<noteq> Some [] \<and>
             addSignatureToPdf lib b (signature_call rect d) = Inr out))"


subsection \<open>Signing, inside the same \<open>try\<close>\<close>

text \<open>
  How the \<open>try\<close> block ends: an error was thrown, the handler returned, or
  the block ran to its end with \<open>nextBytes\<close> and \<open>didSign\<close>.  Each carries the
  state with the effects so far.
\<close>

datatype try_result = Thrown app js_error | Returned app | Completed app bytes bool

text \<open>The state a \<open>try_result\<close> carries.\<close>

fun result_state :: "try_result \<Rightarrow> app" where
  "result_state (Thrown s e) = s"
| "result_state (Returned s) = s"
| "result_state (Completed s b d) = s"


definition sign_request :: "'d pdflib \<Rightarrow> app \<Rightarrow> bytes \<Rightarrow> pdf_rect \<Rightarrow> sign_payload" where
  "sign_request lib st nextBytes rect =
     \<lparr>pdfBase64 = JStr (btoa lib nextBytes),
      certBase64 = JStr (certificateData st),
      password = JStr (certificatePassword st),
      p_name = JStr (signerName st),
      p_reason = JStr (signReason st),
      p_location = JStr (signLocation st),
      p_contactInfo = JStr (signContact st),
      p_pageIndex = JNum (Fin (of_int (r_pageIndex rect))),
      p_rect = RectObject (Some (Fin (r_x rect))) (Some (Fin (r_y rect)))
                 (Some (Fin (r_width rect))) (Some (Fin (r_height rect)))\<rparr>"

definition export_sign :: "'d pdflib \<Rightarrow> pdfApi \<Rightarrow> app \<Rightarrow> bytes \<Rightarrow> try_result" where
  "export_sign lib api st nextBytes =
     (let signatureDrafts = filter (\<lambda>d. d_type d = SIGNATURE) (drafts st) in
      if signatureDrafts = [] \<or> certificateData st = [] then Completed st nextBytes False
      else
        case api_signPdf api of
          None \<Rightarrow>
            Returned (flashStatus ''Digital signing is only available in the desktop app.'' ''error''
              (st\<lparr>signError := ''Digital signing is only available in the desktop app.''\<rparr>))
        | Some signPdf \<Rightarrow>
            (case resolveDraftRect (pageViewports st) (last signatureDrafts) of
               None \<Rightarrow> Returned st
             | Some rect \<Rightarrow>
                 let request = sign_request lib st nextBytes rect;
                     st1 = log_effect (SignPdf request) st
                 in case signPdf request of
                      Inl e \<Rightarrow> Thrown st1 e
                    | Inr (Some (SignError m)) \<Rightarrow>
                        if m \<noteq> [] then Returned (flashStatus m ''error'' (st1\<lparr>signError := m\<rparr>))
                        else Completed st1 nextBytes False
                    | Inr (Some (SignData data)) \<Rightarrow>
                        if data \<noteq> [] then
                          (case atob lib data of
                             Inl e \<Rightarrow> Thrown st1 e
                           | Inr signedBytes \<Rightarrow>
                               (case ensurePdf signedBytes ''signing'' of
                                  Inl e \<Rightarrow> Thrown st1 e
                                | Inr b \<Rightarrow> Completed st1 b True))
                        else Completed st1 nextBytes False
                    | Inr None \<Rightarrow> Completed st1 nextBytes False))"

definition export_try :: "'d pdflib \<Rightarrow> pdfApi \<Rightarrow> app \<Rightarrow> bytes \<Rightarrow> try_result" where
  "export_try lib api st nextBytes =
     (case export_drafts lib (pageViewports st) (includeVisualSignature st) (drafts st) nextBytes of
        Inl e \<Rightarrow> Thrown st e
      | Inr b \<Rightarrow> export_sign lib api st b)"

subsection \<open>Writing the result and the new state\<close>

fun starts_with :: "string \<Rightarrow> string \<Rightarrow> bool" where
  "starts_with s [] = True"
| "starts_with [] (p # ps) = False"
| "starts_with (c # cs) (p # ps) = (c = p \<and> starts_with cs ps)"

fun js_includes :: "string \<Rightarrow> string \<Rightarrow> bool" where
  "js_includes [] sub = (sub = [])"
| "js_includes (c # cs) sub = (starts_with (c # cs) sub \<or> js_includes cs sub)"

text \<open>
  \<open>pdfName.replace(/\\.pdf$/i, '')\<close>: as the source writes it, the pattern
  is a backslash, any character but a line terminator, and \<open>pdf\<close> in either
  case, at the end of the name.
\<close>

definition strip_pdf_suffix :: "string \<Rightarrow> string" where
  "strip_pdf_suffix n =
     (let k = length n - 5; tl5 = drop k n in
      if 5 \<le> length n \<and> hd tl5 = CHR 0x5C \<and> tl5 ! 1 \<noteq> CHR 0x0A \<and> tl5 ! 1 \<noteq> CHR 0x0D \<and>
         map js_lower (drop 2 tl5) = ''pdf''
      then take k n else n)"

text \<open>
  The write: the state with the call logged, and the error when the call
  throws.
\<close>

definition write_out :: "pdfApi \<Rightarrow> string option \<Rightarrow> string \<Rightarrow> bytes \<Rightarrow> app \<Rightarrow> app \<times> js_error option" where
  "write_out api savePath data nextBytes st =
     (case (api_writePdf api, savePath) of
        (Some writePdf, Some path) \<Rightarrow>
          (log_effect (WritePdf path data) st,
           case writePdf path data of Inl e \<Rightarrow> Some e | Inr u \<Rightarrow> None)
      | _ \<Rightarrow>
          (case api_savePdf api of
             Some savePdf \<Rightarrow>
               (log_effect (SavePdf (pdfName st) data) st,
                case savePdf (pdfName st) data of Inl e \<Rightarrow> Some e | Inr u \<Rightarrow> None)
           | None \<Rightarrow>
               (log_effect (Download (if pdfName st = [] then ''fillforge-export.pdf'' else pdfName st)
                              nextBytes) st,
                None)))"

definition export_finish :: "string option \<Rightarrow> bytes \<Rightarrow> bool \<Rightarrow> app \<Rightarrow> app" where
  "export_finish savePath nextBytes didSign st =
     (let st1 = (if savePath \<noteq> None then flashStatus ''Export complete.'' ''success'' st else st);
          st2 = st1\<lparr>pdfBytes := Some (U8 nextBytes), drafts := [], selectedDraftId := None\<rparr>
      in if didSign then
           (if \<not> js_includes (map js_lower (pdfName st2)) ''signed''
            then st2\<lparr>pdfName := strip_pdf_suffix (pdfName st2) @ ''-signed.pdf'', isSigned := True\<rparr>
            else st2\<lparr>isSigned := True\<rparr>)
         else st2)"

text \<open>The handler from the \<open>try\<close> block on, \<open>savePath\<close> chosen.\<close>

definition export_from :: "'d pdflib \<Rightarrow> pdfApi \<Rightarrow> string option \<Rightarrow> bytes \<Rightarrow> app \<Rightarrow> app" where
  "export_from lib api savePath nextBytes st =
     (case export_try lib api st nextBytes of
        Thrown st1 e \<Rightarrow>
          flashStatus ''Export failed. Please try again or reopen the PDF.'' ''error''
            ((log_effect (ConsoleError ''Export failed'' e) st1)
               \<lparr>signError := ''Export failed. Please try again or reopen the PDF.''\<rparr>)
      | Returned st1 \<Rightarrow> st1
      | Completed st1 b didSign \<Rightarrow>
          (case write_out api savePath (btoa lib b) b st1 of
             (st2, Some e) \<Rightarrow>
               flashStatus ''Failed to write the PDF. Please try again.'' ''error''
                 ((log_effect (ConsoleError ''Write failed'' e) st2)
                    \<lparr>signError := ''Failed to write the PDF. Please try again.''\<rparr>)
           | (st2, None) \<Rightarrow> export_finish savePath b didSign st2))"

definition handleExport :: "'d pdflib \<Rightarrow> pdfApi \<Rightarrow> app \<Rightarrow> app" where
  "handleExport lib api st0 =
     (case pdfBytes st0 of
        None \<Rightarrow> st0
      | Some pb \<Rightarrow>
          let st = st0\<lparr>signError := []\<rparr> in
          case normalizePdfBytes (atob lib) pb of
            None \<Rightarrow>
              flashStatus ''PDF data is invalid. Please reopen the document.'' ''error''
                (st\<lparr>signError := ''PDF data is invalid. Please reopen the document.''\<rparr>)
          | Some nextBytes \<Rightarrow>
              if \<not> hasPdfHeader nextBytes then
                flashStatus ''PDF data is invalid. Please reopen the document.'' ''error''
                  (st\<lparr>signError := ''PDF data is invalid. Please reopen the document.''\<rparr>)
              else
                case api_savePdfPath api of
                  None \<Rightarrow> export_from lib api None nextBytes st
                | Some savePdfPath \<Rightarrow>
                    (case savePdfPath (pdfName st) of
                       Inl e \<Rightarrow>
                         flashStatus ''Save dialog failed. Please try again.'' ''error''
                           (log_effect (ConsoleError ''Save dialog failed'' e)
                              (log_effect (SavePdfPath (pdfName st)) st))
                     | Inr None \<Rightarrow> log_effect (SavePdfPath (pdfName st)) st
                     | Inr (Some path) \<Rightarrow>
                         if path = [] then log_effect (SavePdfPath (pdfName st)) st
                         else export_from lib api (Some path) nextBytes
                                (log_effect (SavePdfPath (pdfName st)) st)))"


text \<open>
  An effect that hands document bytes to the save collaborator hands the
  bytes \<open>b\<close> (base64-encoded where the bridge takes them so); and no effect
  is a signing request.
\<close>

definition hands_over :: "'d pdflib \<Rightarrow> bytes \<Rightarrow> effect \<Rightarrow> bool" where
  "hands_over lib b e =
     (case e of
        WritePdf path data \<Rightarrow> data = btoa lib b
      | SavePdf name data \<Rightarrow> data = btoa lib b
      | Download name bs \<Rightarrow> bs = b
      | SignPdf request \<Rightarrow> False
      | _ \<Rightarrow> True)"


section \<open>Sample data\<close>

text \<open>
  A viewport at scale 1 whose map to PDF space is the vertical flip of a page
  of the given size, and one draft; both are used to run the definitions
  above on concrete inputs.
\<close>

definition flip_viewport :: "real \<Rightarrow> real \<Rightarrow> viewport" where
  "flip_viewport w h = \<lparr>vp_width = w, vp_height = h, convertToPdfPoint = (\<lambda>x y. (x, h - y))\<rparr>"

definition sample_box :: draft where
  "sample_box = blank_draft ''draft-1'' CHECKBOX 0 40 40 200 40"


text \<open>
  Collaborators for running the signing handler: every document has three
  pages, the placeholder step needs a page, and signing returns the bytes
  it is given.
\<close>

definition sample_sign_env :: "nat sign_env" where
  "sample_sign_env =
     \<lparr>bufferFromBase64 = map (\<lambda>c. of_nat (of_char c)),
      bufferToBase64 = map (\<lambda>w. char_of (unat w)),
      stringToNumber = (\<lambda>s. NaN),
      importModules = Inr True,
      loadPdf = (\<lambda>b. Inr 3),
      pageCountOf = (\<lambda>d. d),
      pdflibAddPlaceholder =
        (\<lambda>a d. case ph_page a of None \<Rightarrow> Inl (Error ''page is undefined'') | Some k \<Rightarrow> Inr d),
      saveNoObjectStreams = (\<lambda>d. Inr [0x25, 0x50, 0x44, 0x46]),
      signP12 = (\<lambda>pdf cert pw. Inr pdf)\<rparr>"

definition sample_payload :: "jsval \<Rightarrow> jsval \<Rightarrow> jsval \<Rightarrow> sign_payload" where
  "sample_payload pdf cert page =
     no_payload\<lparr>pdfBase64 := pdf, certBase64 := cert, p_pageIndex := page\<rparr>"


text \<open>A fixed-pitch font: every character is 0.6 of the font size wide.\<close>

definition courier_like :: "string \<Rightarrow> real \<Rightarrow> real" where
  "courier_like s sz = real (length s) * sz * 0.6"


text \<open>
  A small library for running \<open>pdfUtils.js\<close>: a document is the bytes it
  was loaded from and the list of the operations applied since; loading
  needs the \<open>%PDF\<close> header, saving appends the names of the operations, and
  the form has the text field \<open>fullName\<close> and the checkbox \<open>agree\<close>.
  \<open>rgb\<close> checks its range as pdf-lib does, \<open>embedPng\<close> needs the PNG
  signature, and \<open>atob\<close> decodes base64.
\<close>

definition as_bytes :: "string \<Rightarrow> bytes" where
  "as_bytes s = map (\<lambda>c. of_nat (of_char c)) s"

definition as_string :: "bytes \<Rightarrow> string" where
  "as_string b = map (\<lambda>w. char_of (unat w)) b"

definition b64_index :: "char \<Rightarrow> nat option" where
  "b64_index c =
     (let n = of_char c :: nat in
      if 65 \<le> n \<and> n \<le> 90 then Some (n - 65)
      else if 97 \<le> n \<and> n \<le> 122 then Some (n - 71)
      else if 48 \<le> n \<and> n \<le> 57 then Some (n + 4)
      else if n = 43 then Some 62
      else if n = 47 then Some 63
      else None)"

fun b64_groups :: "nat list \<Rightarrow> bytes" where
  "b64_groups (a # b # c # d # rest) =
     of_nat (a * 4 + b div 16) # of_nat ((b mod 16) * 16 + c div 4) # of_nat ((c mod 4) * 64 + d)
       # b64_groups rest"
| "b64_groups [a, b, c] = [of_nat (a * 4 + b div 16), of_nat ((b mod 16) * 16 + c div 4)]"
| "b64_groups [a, b] = [of_nat (a * 4 + b div 16)]"
| "b64_groups _ = []"

definition sample_atob :: "string \<Rightarrow> js_error + bytes" where
  "sample_atob s =
     (let t = filter (\<lambda>c. c \<notin> {CHR 0x09, CHR 0x0A, CHR 0x0C, CHR 0x0D, CHR 0x20}) s;
          t = (if length t mod 4 = 0 \<and> t \<noteq> [] \<and> last t = CHR ''=''
               then (if butlast t \<noteq> [] \<and> last (butlast t) = CHR ''=''
                     then butlast (butlast t) else butlast t)
               else t)
      in if length t mod 4 = 1 \<or> (\<exists>c \<in> set t. b64_index c = None)
         then Inl (Error ''The string to be decoded is not correctly encoded.'')
         else Inr (b64_groups (map (\<lambda>c. the (b64_index c)) t)))"

definition in_unit :: "jsnum \<Rightarrow> bool" where
  "in_unit n = (case n of Fin r \<Rightarrow> 0 \<le> r \<and> r \<le> 1 | _ \<Rightarrow> False)"

definition op_done :: "string \<Rightarrow> bytes \<times> string list \<Rightarrow> js_error + bytes \<times> string list" where
  "op_done name d = Inr (fst d, snd d @ [name])"

definition sample_lib :: "(bytes \<times> string list) pdflib" where
  "sample_lib =
     \<lparr>load = (\<lambda>b. if take 4 b = [0x25, 0x50, 0x44, 0x46] then Inr (b, [])
                  else Inl (Error ''Failed to parse PDF document'')),
      save = (\<lambda>d. Inr (fst d @ as_bytes (concat (snd d)))),
      pageCount = (\<lambda>d. 1),
      embedFont = (\<lambda>f d. (fst d, snd d @ [''/Font''])),
      widthOfTextAtSize = (\<lambda>f. courier_like),
      rgb = (\<lambda>r g b. if in_unit r \<and> in_unit g \<and> in_unit b then Inr (Rgb r g b)
                      else Inl (Error ''color must be at least 0 and at most 1'')),
      drawText = (\<lambda>k line opts. op_done (''/Text '' @ line)),
      drawLine = (\<lambda>k opts. op_done ''/Line''),
      createTextField = (\<lambda>n. op_done (''/Tx '' @ n)),
      createCheckBox = (\<lambda>n. op_done (''/Btn '' @ n)),
      addToPage = (\<lambda>n k r. op_done ''/Widget''),
      updateFieldAppearances = (\<lambda>f. op_done ''/AP''),
      getField = (\<lambda>d n. if n = ''fullName'' then Some PDFTextField
                          else if n = ''agree'' then Some PDFCheckBox else None),
      setText = (\<lambda>n v. op_done (''/V '' @ v)),
      check = (\<lambda>n. op_done ''/V /Yes''),
      uncheck = (\<lambda>n. op_done ''/V /Off''),
      select = (\<lambda>n v. op_done (''/V '' @ v)),
      embedPng = (\<lambda>ib d. if take 8 ib = [0x89, 0x50, 0x4E, 0x47, 0x0D, 0x0A, 0x1A, 0x0A]
                           then Inr (\<lparr>png_width = 1, png_height = 1, png_data = ib\<rparr>,
                                     (fst d, snd d @ [''/Image'']))
                           else Inl (Error ''The input is not a PNG file!'')),
      drawImage = (\<lambda>k img opts. op_done ''/Do''),
      atob = sample_atob,
      btoa = as_string,
      dateNow = ''1700000000000'',
      numberToString = (\<lambda>n. ''NaN'')\<rparr>"

text \<open>The same library with a \<open>save\<close> that writes no header.\<close>

definition headerless_lib :: "(bytes \<times> string list) pdflib" where
  "headerless_lib = sample_lib\<lparr>save := (\<lambda>d. Inr (as_bytes (concat (snd d))))\<rparr>"

definition sample_pdf :: bytes where
  "sample_pdf = as_bytes ''%PDF-1.7''"

definition sample_signature_args :: "string option \<Rightarrow> signature_args" where
  "sample_signature_args url =
     \<lparr>s_pageIndex = 0, s_x = 40, s_y = 40, s_width = Some 200, s_height = Some 80,
      s_dataUrl = url\<rparr>"


text \<open>
  An editor state over the sample document, one Letter page at scale 1, with
  given drafts; a text draft and a checkbox draft; and a browser without the
  desktop bridge.
\<close>

definition sample_app :: "draft list \<Rightarrow> app" where
  "sample_app ds =
     \<lparr>pdfBytes = Some (U8 sample_pdf), pdfName = ''form.pdf'', drafts = ds,
      selectedDraftId = None, signError = [], statusMessage = None, isSigned = False,
      certificateData = [], certificatePassword = [], signerName = [], signReason = [],
      signLocation = [], signContact = [], includeVisualSignature = True,
      pageViewports = [flip_viewport 612 792], effects = []\<rparr>"

definition sample_text :: draft where
  "sample_text =
     (blank_draft ''draft-1'' TEXT 0 40 40 200 40)
       \<lparr>d_text := Some ''Hello'', d_size := Some 24, d_color := Some ''#0d1117''\<rparr>"

definition no_bridge :: pdfApi where
  "no_bridge = \<lparr>api_savePdfPath = None, api_signPdf = None, api_writePdf = None, api_savePdf = None\<rparr>"

section \<open>Properties of \<open>hexToRgb\<close>\<close>












section \<open>Properties of \<open>wrapText\<close>\<close>

lemma split_ws_append_ws:
  "js_ws c \<Longrightarrow> split_ws cur (a @ c # b) = split_ws cur a @ split_ws [] b"
  by (induction a arbitrary: cur) auto

lemma split_ws_word:
  "\<forall>c \<in> set w. \<not> js_ws c \<Longrightarrow> split_ws cur w = (if cur @ w = [] then [] else [cur @ w])"
  by (induction w arbitrary: cur) auto

lemma split_ws_words:
  "\<forall>c \<in> set cur. \<not> js_ws c \<Longrightarrow> \<forall>w \<in> set (split_ws cur s). is_word w"
proof (induction s arbitrary: cur)
  case Nil
  then show ?case by (auto simp: is_word_def)
next
  case (Cons a s)
  show ?case
  proof (cases "js_ws a")
    case True
    have "\<forall>w \<in> set (split_ws [] s). is_word w" by (rule Cons.IH) simp
    then show ?thesis using True Cons.prems by (auto simp: is_word_def)
  next
    case False
    have "\<forall>w \<in> set (split_ws (cur @ [a]) s). is_word w"
      by (rule Cons.IH) (use False Cons.prems in auto)
    then show ?thesis using False by simp
  qed
qed

lemma words_of_words: "\<forall>w \<in> set (words_of s). is_word w"
  using split_ws_words[of "[]" s] by (simp add: words_of_def)

lemma space_ws: "js_ws CHR '' ''"
  by (simp add: js_ws_def)

lemma words_of_join:
  "\<forall>w \<in> set g. is_word w \<Longrightarrow> words_of (join_sp g) = g"
proof (induction g rule: join_sp.induct)
  case 1
  then show ?case by (simp add: words_of_def)
next
  case (2 w)
  then show ?case by (simp add: words_of_def split_ws_word is_word_def)
next
  case (3 w v vs)
  have "words_of (join_sp (w # v # vs)) = split_ws [] (w @ CHR '' '' # join_sp (v # vs))"
    by (simp add: words_of_def)
  also have "\<dots> = split_ws [] w @ split_ws [] (join_sp (v # vs))"
    by (rule split_ws_append_ws[OF space_ws])
  also have "\<dots> = [w] @ (v # vs)"
    using 3 by (simp add: split_ws_word is_word_def words_of_def)
  finally show ?case by simp
qed

lemma split_on_nonempty: "split_on c s \<noteq> []"
  by (induction s) (auto split: list.splits)

lemma newline_ws: "js_ws (CHR 0x0A)"
  by (simp add: js_ws_def)

lemma split_ws_split_on:
  "split_ws cur str =
     split_ws cur (hd (split_on (CHR 0x0A) str)) @
     concat (map words_of (tl (split_on (CHR 0x0A) str)))"
proof (induction str arbitrary: cur)
  case Nil
  then show ?case by simp
next
  case (Cons x xs)
  obtain p ps where sp: "split_on (CHR 0x0A) xs = p # ps"
    using split_on_nonempty[of "CHR 0x0A" xs] by (cases "split_on (CHR 0x0A) xs") auto
  show ?case
  proof (cases "x = CHR 0x0A")
    case True
    have "concat (map words_of (split_on (CHR 0x0A) xs)) = split_ws [] xs"
      using Cons.IH[of "[]"] sp by (simp add: words_of_def[abs_def])
    then show ?thesis using True newline_ws by simp
  next
    case False
    show ?thesis
    proof (cases "js_ws x")
      case True
      then show ?thesis using False sp Cons.IH[of "[]"] by simp
    next
      case nws: False
      then show ?thesis using False sp Cons.IH[of "cur @ [x]"] by simp
    qed
  qed
qed

lemma words_of_nil: "words_of [] = []"
  by (simp add: words_of_def)

lemma words_of_split_on:
  "concat (map words_of (split_on (CHR 0x0A) str)) = words_of str"
proof -
  obtain p ps where sp: "split_on (CHR 0x0A) str = p # ps"
    using split_on_nonempty[of "CHR 0x0A" str] by (cases "split_on (CHR 0x0A) str") auto
  show ?thesis using split_ws_split_on[of "[]" str] sp by (simp add: words_of_def)
qed

lemma join_sp_snoc:
  "join_sp (g @ [w]) = (if g = [] then w else join_sp g @ '' '' @ w)"
  by (induction g rule: join_sp.induct) auto

lemma join_sp_empty: "\<forall>w \<in> set g. is_word w \<Longrightarrow> join_sp g = [] \<longleftrightarrow> g = []"
  by (induction g rule: join_sp.induct) (auto simp: is_word_def)

lemma wrap_words_groups:
  "\<forall>w \<in> set (g @ ws). is_word w \<Longrightarrow>
   wrap_words W m (map join_sp gs) (join_sp g) ws =
     (case wrap_groups W m gs g ws of (gs', g') \<Rightarrow> (map join_sp gs', join_sp g'))"
proof (induction ws arbitrary: gs g)
  case Nil
  then show ?case by simp
next
  case (Cons w ws)
  have e: "join_sp g = [] \<longleftrightarrow> g = []" using Cons.prems join_sp_empty[of g] by simp
  have t: "testLine (join_sp g) w = join_sp (g @ [w])"
    by (simp add: testLine_def join_sp_snoc e)
  show ?case
  proof (cases "W (join_sp (g @ [w])) > m \<and> g \<noteq> []")
    case True
    have "wrap_words W m (map join_sp (gs @ [g])) (join_sp [w]) ws =
        (case wrap_groups W m (gs @ [g]) [w] ws of (gs', g') \<Rightarrow> (map join_sp gs', join_sp g'))"
      by (rule Cons.IH) (use Cons.prems in simp)
    then show ?thesis using True t e by simp
  next
    case False
    have "wrap_words W m (map join_sp gs) (join_sp (g @ [w])) ws =
        (case wrap_groups W m gs (g @ [w]) ws of (gs', g') \<Rightarrow> (map join_sp gs', join_sp g'))"
      by (rule Cons.IH) (use Cons.prems in simp)
    then show ?thesis using False t e by auto
  qed
qed

lemma wrap_groups_concat:
  "wrap_groups W m gs g ws = (gs', g') \<Longrightarrow> concat gs' @ g' = concat gs @ g @ ws"
  by (induction ws arbitrary: gs g) (auto split: if_splits)

lemma wrap_groups_nonempty:
  "wrap_groups W m gs g ws = (gs', g') \<Longrightarrow> [] \<notin> set gs \<Longrightarrow> [] \<notin> set gs'"
  by (induction ws arbitrary: gs g) (auto split: if_splits)

lemma wrap_groups_invariant:
  assumes "wrap_groups W m gs g ws = (gs', g')"
    and "\<forall>x \<in> set gs. Q x" and "Q g"
    and "\<And>w. w \<in> set ws \<Longrightarrow> Q [w]"
    and "\<And>h w. Q h \<Longrightarrow> h \<noteq> [] \<Longrightarrow> w \<in> set ws \<Longrightarrow> W (join_sp (h @ [w])) \<le> m \<Longrightarrow> Q (h @ [w])"
  shows "(\<forall>x \<in> set gs'. Q x) \<and> Q g'"
  using assms
proof (induction ws arbitrary: gs g)
  case Nil
  then show ?case by simp
next
  case (Cons w ws)
  show ?case
  proof (cases "W (join_sp (g @ [w])) > m \<and> g \<noteq> []")
    case True
    then have r: "wrap_groups W m (gs @ [g]) [w] ws = (gs', g')" using Cons.prems(1) by simp
    show ?thesis
      by (rule Cons.IH[OF r]) (use Cons.prems in auto)
  next
    case False
    then have r: "wrap_groups W m gs (g @ [w]) ws = (gs', g')" using Cons.prems(1) by auto
    have q: "Q (g @ [w])"
    proof (cases "g = []")
      case True then show ?thesis using Cons.prems(4)[of w] by simp
    next
      case ne: False
      then have "W (join_sp (g @ [w])) \<le> m" using False by auto
      then show ?thesis using Cons.prems(5)[OF Cons.prems(3) ne] by simp
    qed
    show ?thesis
      by (rule Cons.IH[OF r]) (use Cons.prems q in auto)
  qed
qed


lemma wrap_groups_words:
  assumes "wrap_groups W m gs g ws = (gs', g')"
    and "\<forall>x \<in> set gs. \<forall>w \<in> set x. is_word w" "\<forall>w \<in> set g. is_word w" "\<forall>w \<in> set ws. is_word w"
  shows "(\<forall>x \<in> set gs'. \<forall>w \<in> set x. is_word w) \<and> (\<forall>w \<in> set g'. is_word w)"
  by (rule wrap_groups_invariant[OF assms(1), where Q = "\<lambda>x. \<forall>w \<in> set x. is_word w"])
     (use assms in auto)

lemma wrap_groups_fit:
  assumes "wrap_groups W m [] [] ws = (gs', g')"
  shows "(\<forall>x \<in> set gs'. length x \<le> 1 \<or> W (join_sp x) \<le> m) \<and> (length g' \<le> 1 \<or> W (join_sp g') \<le> m)"
  by (rule wrap_groups_invariant[OF assms, where Q = "\<lambda>x. length x \<le> 1 \<or> W (join_sp x) \<le> m"])
     auto

lemma word_le_join:
  fixes W :: "string \<Rightarrow> real"
  assumes mono: "\<forall>a b. W a \<le> W (a @ '' '' @ b) \<and> W b \<le> W (a @ '' '' @ b)"
  shows "w \<in> set g \<Longrightarrow> W w \<le> W (join_sp g)"
proof (induction g rule: join_sp.induct)
  case 1
  then show ?case by simp
next
  case (2 v)
  then show ?case by simp
next
  case (3 v u us)
  have a: "W v \<le> W (join_sp (v # u # us))" using mono by simp
  have b: "W (join_sp (u # us)) \<le> W (join_sp (v # u # us))" using mono by simp
  show ?case
  proof (cases "w = v")
    case True
    then show ?thesis using a by simp
  next
    case False
    then have "w \<in> set (u # us)" using 3(2) by simp
    then have "W w \<le> W (join_sp (u # us))" by (rule 3(1))
    then show ?thesis using b by linarith
  qed
qed

lemma wrap_groups_alone:
  assumes r: "wrap_groups W m [] [] ws = (gs', g')"
    and mono: "\<forall>a b. W a \<le> W (a @ '' '' @ b) \<and> W b \<le> W (a @ '' '' @ b)"
  shows "(\<forall>x \<in> set gs'. \<forall>w \<in> set x. m < W w \<longrightarrow> x = [w]) \<and> (\<forall>w \<in> set g'. m < W w \<longrightarrow> g' = [w])"
proof (rule wrap_groups_invariant[OF r, where Q = "\<lambda>x. \<forall>w \<in> set x. m < W w \<longrightarrow> x = [w]"])
  fix h w
  assume "W (join_sp (h @ [w])) \<le> m"
  then have "\<forall>v \<in> set (h @ [w]). W v \<le> m"
    using word_le_join[OF mono, of _ "h @ [w]"] by (meson order_trans)
  then show "\<forall>v \<in> set (h @ [w]). m < W v \<longrightarrow> h @ [w] = [v]" by auto
qed auto


lemma wrap_words_prefix:
  "wrap_words W m (pre @ ls) line ws =
     (case wrap_words W m ls line ws of (a, b) \<Rightarrow> (pre @ a, b))"
proof (induction ws arbitrary: ls line)
  case Nil
  then show ?case by simp
next
  case (Cons w ws)
  show ?case using Cons.IH[of "ls @ [line]" w] Cons.IH[of ls "testLine line w"] by simp
qed

lemma wrap_words_of_groups:
  assumes "\<forall>w \<in> set ws. is_word w" and "wrap_groups W m [] [] ws = (gs', g')"
  shows "wrap_words W m lines [] ws = (lines @ map join_sp gs', join_sp g')"
proof -
  have "wrap_words W m [] [] ws = (map join_sp gs', join_sp g')"
    using wrap_words_groups[of "[]" ws W m "[]"] assms by simp
  then show ?thesis using wrap_words_prefix[of W m lines "[]" "[]" ws] by simp
qed

lemma group_line:
  assumes "\<forall>w \<in> set x. is_word w" and "length x \<le> 1 \<or> W (join_sp x) \<le> m"
  shows "line_of_words W m (join_sp x)"
  using assms by (simp add: line_of_words_def words_of_join)

lemma group_alone:
  assumes "\<forall>w \<in> set x. is_word w" and "\<forall>w \<in> set x. m < W w \<longrightarrow> x = [w]"
  shows "oversized_alone W m (join_sp x)"
  unfolding oversized_alone_def words_of_join[OF assms(1)]
proof
  fix w assume w: "w \<in> set x"
  show "m < W w \<longrightarrow> join_sp x = w"
  proof
    assume "m < W w"
    then have "x = [w]" using assms(2) w by blast
    then show "join_sp x = w" by simp
  qed
qed

lemma empty_line: "line_of_words W m [] \<and> oversized_alone W m []"
  by (simp add: line_of_words_def oversized_alone_def words_of_nil)

lemma wrap_paragraph_lines:
  fixes W :: "string \<Rightarrow> real"
  shows "\<exists>new. wrap_paragraph W m lines p notLast = lines @ new \<and>
      concat (map words_of new) = words_of p \<and>
      (\<forall>l \<in> set new. line_of_words W m l) \<and>
      ((\<forall>a b. W a \<le> W (a @ '' '' @ b) \<and> W b \<le> W (a @ '' '' @ b)) \<longrightarrow>
         (\<forall>l \<in> set new. oversized_alone W m l))"
proof -
  obtain gs' g' where r: "wrap_groups W m [] [] (words_of p) = (gs', g')"
    by (cases "wrap_groups W m [] [] (words_of p)") auto
  have ww: "\<forall>w \<in> set (words_of p). is_word w" by (rule words_of_words)
  have wds: "(\<forall>x \<in> set gs'. \<forall>w \<in> set x. is_word w) \<and> (\<forall>w \<in> set g'. is_word w)"
    by (rule wrap_groups_words[OF r]) (use ww in auto)
  have fit: "(\<forall>x \<in> set gs'. length x \<le> 1 \<or> W (join_sp x) \<le> m) \<and>
      (length g' \<le> 1 \<or> W (join_sp g') \<le> m)"
    by (rule wrap_groups_fit[OF r])
  have cc: "concat gs' @ g' = words_of p" using wrap_groups_concat[OF r] by simp
  have ww2: "wrap_words W m lines [] (words_of p) = (lines @ map join_sp gs', join_sp g')"
    by (rule wrap_words_of_groups[OF ww r])
  define last_line where "last_line = (if join_sp g' \<noteq> [] \<or> p = [] then [join_sp g'] else [])"
  define new where "new = map join_sp gs' @ last_line @ (if notLast then [[]] else [])"
  have eq: "wrap_paragraph W m lines p notLast = lines @ new"
    by (simp add: wrap_paragraph_def ww2 new_def last_line_def)
  have wj: "map words_of (map join_sp gs') = gs'"
    using wds by (simp add: words_of_join map_idI)
  have wl: "concat (map words_of last_line) = g'"
    using wds join_sp_empty[of g'] by (auto simp: last_line_def words_of_join words_of_nil)
  have c: "concat (map words_of new) = words_of p"
    using cc wj wl by (simp add: new_def words_of_nil)
  have lines_ok: "\<forall>l \<in> set new. line_of_words W m l"
    using wds fit empty_line[of W m] group_line[of _ W m]
    by (auto simp: new_def last_line_def)
  have alone: "(\<forall>a b. W a \<le> W (a @ '' '' @ b) \<and> W b \<le> W (a @ '' '' @ b)) \<longrightarrow>
         (\<forall>l \<in> set new. oversized_alone W m l)"
  proof
    assume mono: "\<forall>a b. W a \<le> W (a @ '' '' @ b) \<and> W b \<le> W (a @ '' '' @ b)"
    have al: "(\<forall>x \<in> set gs'. \<forall>w \<in> set x. m < W w \<longrightarrow> x = [w]) \<and> (\<forall>w \<in> set g'. m < W w \<longrightarrow> g' = [w])"
      by (rule wrap_groups_alone[OF r mono])
    show "\<forall>l \<in> set new. oversized_alone W m l"
      using wds al empty_line[of W m] group_alone[of _ m W]
      by (auto simp: new_def last_line_def)
  qed
  show ?thesis using eq c lines_ok alone by blast
qed

lemma wrap_paragraphs_lines:
  fixes W :: "string \<Rightarrow> real"
  shows "\<exists>new. wrap_paragraphs W m lines ps = lines @ new \<and>
      concat (map words_of new) = concat (map words_of ps) \<and>
      (\<forall>l \<in> set new. line_of_words W m l) \<and>
      ((\<forall>a b. W a \<le> W (a @ '' '' @ b) \<and> W b \<le> W (a @ '' '' @ b)) \<longrightarrow>
         (\<forall>l \<in> set new. oversized_alone W m l))"
proof (induction ps arbitrary: lines)
  case Nil
  show ?case by simp
next
  case (Cons p ps)
  obtain n1 where n1: "wrap_paragraph W m lines p (ps \<noteq> []) = lines @ n1"
      "concat (map words_of n1) = words_of p" "\<forall>l \<in> set n1. line_of_words W m l"
      "(\<forall>a b. W a \<le> W (a @ '' '' @ b) \<and> W b \<le> W (a @ '' '' @ b)) \<longrightarrow>
         (\<forall>l \<in> set n1. oversized_alone W m l)"
    using wrap_paragraph_lines[of W m lines p "ps \<noteq> []"] by blast
  obtain n2 where n2: "wrap_paragraphs W m (lines @ n1) ps = (lines @ n1) @ n2"
      "concat (map words_of n2) = concat (map words_of ps)" "\<forall>l \<in> set n2. line_of_words W m l"
      "(\<forall>a b. W a \<le> W (a @ '' '' @ b) \<and> W b \<le> W (a @ '' '' @ b)) \<longrightarrow>
         (\<forall>l \<in> set n2. oversized_alone W m l)"
    using Cons.IH[of "lines @ n1"] by blast
  have "wrap_paragraphs W m lines (p # ps) = lines @ (n1 @ n2)"
    using n1(1) n2(1) by simp
  moreover have "concat (map words_of (n1 @ n2)) = concat (map words_of (p # ps))"
    using n1(2) n2(2) by simp
  moreover have "\<forall>l \<in> set (n1 @ n2). line_of_words W m l" using n1(3) n2(3) by auto
  moreover have "(\<forall>a b. W a \<le> W (a @ '' '' @ b) \<and> W b \<le> W (a @ '' '' @ b)) \<longrightarrow>
         (\<forall>l \<in> set (n1 @ n2). oversized_alone W m l)" using n1(4) n2(4) by auto
  ultimately show ?case by blast
qed

text \<open>
  Claim C5.  For a positive maximum width, the lines of \<open>wrapText\<close> hold
  the words of the text, whole and in order; every line is the words it
  holds joined by single spaces; every line measures at most the maximum
  width, or is empty, or is a single word that measures more.  When joining
  two strings with a space never measures less than either of them, a word
  that measures more than the maximum width is a line of its own.
\<close>

theorem wrapText_word_boundaries:
  assumes m: "0 < m"
  shows "concat (map words_of (wrapText str font sz (Some m))) = words_of str \<and>
     (\<forall>l \<in> set (wrapText str font sz (Some m)).
        l = join_sp (words_of l) \<and>
        (font l sz \<le> m \<or> l = [] \<or> (words_of l = [l] \<and> m < font l sz))) \<and>
     ((\<forall>a b. font a sz \<le> font (a @ '' '' @ b) sz \<and> font b sz \<le> font (a @ '' '' @ b) sz) \<longrightarrow>
        (\<forall>l \<in> set (wrapText str font sz (Some m)).
           \<forall>w \<in> set (words_of l). m < font w sz \<longrightarrow> l = w))"
proof (cases "str = []")
  case True
  then show ?thesis by (simp add: wrapText_def words_of_nil)
next
  case False
  define W where "W = (\<lambda>s. font s sz)"
  obtain new where new: "wrap_paragraphs W m [] (split_on (CHR 0x0A) str) = [] @ new"
      "concat (map words_of new) = concat (map words_of (split_on (CHR 0x0A) str))"
      "\<forall>l \<in> set new. line_of_words W m l"
      "(\<forall>a b. W a \<le> W (a @ '' '' @ b) \<and> W b \<le> W (a @ '' '' @ b)) \<longrightarrow>
         (\<forall>l \<in> set new. oversized_alone W m l)"
    using wrap_paragraphs_lines[of W m "[]" "split_on (CHR 0x0A) str"] by blast
  have wt: "wrapText str font sz (Some m) = new"
    using False m new(1) by (simp add: wrapText_def W_def)
  have 1: "concat (map words_of new) = words_of str"
    using new(2) words_of_split_on by simp
  have 2: "\<forall>l \<in> set new. l = join_sp (words_of l) \<and>
        (font l sz \<le> m \<or> l = [] \<or> (words_of l = [l] \<and> m < font l sz))"
  proof
    fix l assume "l \<in> set new"
    then have lw: "l = join_sp (words_of l)" "length (words_of l) \<le> 1 \<or> font l sz \<le> m"
      using new(3) by (auto simp: line_of_words_def W_def)
    show "l = join_sp (words_of l) \<and>
        (font l sz \<le> m \<or> l = [] \<or> (words_of l = [l] \<and> m < font l sz))"
    proof (cases "font l sz \<le> m")
      case True
      then show ?thesis using lw(1) by simp
    next
      case False
      then have "length (words_of l) \<le> 1" using lw(2) by simp
      then have "words_of l = [] \<or> (\<exists>w. words_of l = [w])"
        by (cases "words_of l") (auto simp: length_Suc_conv)
      then have "l = [] \<or> words_of l = [l]" using lw(1) by (metis join_sp.simps(1,2))
      then show ?thesis using False lw(1) by auto
    qed
  qed
  have 3: "(\<forall>a b. font a sz \<le> font (a @ '' '' @ b) sz \<and> font b sz \<le> font (a @ '' '' @ b) sz) \<longrightarrow>
        (\<forall>l \<in> set new. \<forall>w \<in> set (words_of l). m < font w sz \<longrightarrow> l = w)"
    using new(4) by (simp add: oversized_alone_def W_def)
  show ?thesis unfolding wt using 1 2 3 by blast
qed


theorem wrapText_word_boundaries_witness:
  "wrapText ''a supercalifragilistic word\<newline>is long'' courier_like 10 (Some 70)
     = [''a'', ''supercalifragilistic'', ''word'', [], ''is long''] \<and>
   concat (map words_of (wrapText ''a supercalifragilistic word\<newline>is long'' courier_like 10 (Some 70)))
     = words_of ''a supercalifragilistic word\<newline>is long''"
  using wrapText_word_boundaries[of 70 "''a supercalifragilistic word\<newline>is long''" courier_like 10]
  by (simp add: wrapText_def wrap_paragraph_def words_of_def testLine_def courier_like_def js_ws_def)

section \<open>Properties of the draft geometry\<close>

subsection \<open>Rescaling\<close>

lemma rel_mult:
  fixes a b A B e1 e2 :: real
  assumes "\<bar>a - A\<bar> \<le> e1 * \<bar>A\<bar>" "\<bar>b - B\<bar> \<le> e2 * \<bar>B\<bar>" "0 \<le> e1" "0 \<le> e2"
  shows "\<bar>a * b - A * B\<bar> \<le> ((1 + e1) * (1 + e2) - 1) * \<bar>A * B\<bar>"
proof -
  have eq: "a * b - A * B = (a - A) * (b - B) + (a - A) * B + A * (b - B)"
    by (simp add: algebra_simps)
  have "\<bar>(a - A) * (b - B) + (a - A) * B + A * (b - B)\<bar>
      \<le> \<bar>(a - A) * (b - B)\<bar> + \<bar>(a - A) * B\<bar> + \<bar>A * (b - B)\<bar>"
    by linarith
  then have "\<bar>a * b - A * B\<bar> \<le> \<bar>a - A\<bar> * \<bar>b - B\<bar> + \<bar>a - A\<bar> * \<bar>B\<bar> + \<bar>A\<bar> * \<bar>b - B\<bar>"
    unfolding eq by (simp only: abs_mult)
  also have "\<dots> \<le> (e1 * \<bar>A\<bar>) * (e2 * \<bar>B\<bar>) + (e1 * \<bar>A\<bar>) * \<bar>B\<bar> + \<bar>A\<bar> * (e2 * \<bar>B\<bar>)"
    using assms by (intro add_mono mult_mono) (auto intro: mult_nonneg_nonneg)
  also have "\<dots> = ((1 + e1) * (1 + e2) - 1) * \<bar>A * B\<bar>"
    by (simp add: algebra_simps abs_mult)
  finally show ?thesis .
qed

lemma rel_round:
  fixes v V e u :: real
  assumes fl: "\<forall>v. \<bar>fl v - v\<bar> \<le> u * \<bar>v\<bar>" and "\<bar>v - V\<bar> \<le> e * \<bar>V\<bar>" "0 \<le> u" "0 \<le> e"
  shows "\<bar>fl v - V\<bar> \<le> ((1 + u) * (1 + e) - 1) * \<bar>V\<bar>"
proof -
  have v: "\<bar>v\<bar> \<le> (1 + e) * \<bar>V\<bar>" using assms(2) by (simp add: algebra_simps)
  have "\<bar>fl v - V\<bar> \<le> \<bar>fl v - v\<bar> + \<bar>v - V\<bar>" by linarith
  also have "\<dots> \<le> u * \<bar>v\<bar> + e * \<bar>V\<bar>" using fl assms(2) by (simp add: add_mono)
  also have "\<dots> \<le> u * ((1 + e) * \<bar>V\<bar>) + e * \<bar>V\<bar>"
    using v assms(3) by (simp add: mult_left_mono)
  also have "\<dots> = ((1 + u) * (1 + e) - 1) * \<bar>V\<bar>" by (simp add: algebra_simps)
  finally show ?thesis .
qed

lemma coord_round_trip:
  fixes x s1 s2 u :: real
  assumes fl: "\<forall>v. \<bar>fl v - v\<bar> \<le> u * \<bar>v\<bar>" and u: "0 \<le> u" and s: "s1 \<noteq> 0" "s2 \<noteq> 0"
  shows "\<bar>fl (fl (x * fl (s2 / s1)) * fl (s1 / s2)) - x\<bar> \<le> ((1 + u) ^ 4 - 1) * \<bar>x\<bar>"
proof -
  define X where "X = x * (s2 / s1)"
  have bk: "X * (s1 / s2) = x" using s by (simp add: X_def)
  have r1: "\<bar>fl (s2 / s1) - s2 / s1\<bar> \<le> u * \<bar>s2 / s1\<bar>" using fl by blast
  have r2: "\<bar>fl (s1 / s2) - s1 / s2\<bar> \<le> u * \<bar>s1 / s2\<bar>" using fl by blast
  have x0: "\<bar>x - x\<bar> \<le> 0 * \<bar>x\<bar>" by simp
  have "\<bar>x * fl (s2 / s1) - x * (s2 / s1)\<bar> \<le> ((1 + 0) * (1 + u) - 1) * \<bar>x * (s2 / s1)\<bar>"
    by (rule rel_mult[OF x0 r1 order_refl u])
  then have "\<bar>x * fl (s2 / s1) - X\<bar> \<le> u * \<bar>X\<bar>" by (simp add: X_def)
  from rel_round[OF fl this u u]
  have x1: "\<bar>fl (x * fl (s2 / s1)) - X\<bar> \<le> ((1 + u) * (1 + u) - 1) * \<bar>X\<bar>" .
  have nn: "0 \<le> (1 + u) * (1 + u) - 1" using u by (simp add: algebra_simps)
  have "\<bar>fl (x * fl (s2 / s1)) * fl (s1 / s2) - X * (s1 / s2)\<bar>
      \<le> ((1 + ((1 + u) * (1 + u) - 1)) * (1 + u) - 1) * \<bar>X * (s1 / s2)\<bar>"
    by (rule rel_mult[OF x1 r2 nn u])
  then have p: "\<bar>fl (x * fl (s2 / s1)) * fl (s1 / s2) - x\<bar> \<le> ((1 + u) ^ 3 - 1) * \<bar>x\<bar>"
    unfolding bk by (simp add: power3_eq_cube)
  have nn3: "0 \<le> (1 + u) ^ 3 - 1" using u by (simp add: one_le_power)
  from rel_round[OF fl p u nn3]
  have "\<bar>fl (fl (x * fl (s2 / s1)) * fl (s1 / s2)) - x\<bar> \<le> ((1 + u) * (1 + ((1 + u) ^ 3 - 1)) - 1) * \<bar>x\<bar>" .
  moreover have "(1 + u) * (1 + ((1 + u) ^ 3 - 1)) = (1 + u) ^ 4"
    by (simp add: power4_eq_xxxx power3_eq_cube)
  ultimately show ?thesis by simp
qed

lemma rescale_twice:
  assumes fl: "\<forall>v. \<bar>fl v - v\<bar> \<le> u * \<bar>v\<bar>" and u: "0 \<le> u" and s: "s1 \<noteq> 0" "s2 \<noteq> 0"
  shows "rect_close ((1 + u) ^ 4 - 1) d (rescale_draft fl (fl (s1 / s2)) (rescale_draft fl (fl (s2 / s1)) d))"
  unfolding rect_close_def
  using coord_round_trip[OF fl u s] by (simp add: rescale_draft_def)

text \<open>
  Claim C7.  When the scale changes from \<open>s1\<close> to \<open>s2\<close> the effect
  replaces every draft's \<open>x\<close>, \<open>y\<close>, \<open>width\<close> and \<open>height\<close> by its
  product with \<open>s2 / s1\<close>; changing the scale back to \<open>s1\<close> gives
  drafts that differ from the original ones in their rectangles only, each
  coordinate within the relative distance \<open>(1 + u)^4 - 1\<close> of the original
  when every arithmetic operation rounds with relative error at most \<open>u\<close>
  (and so exactly the original rectangle when \<open>u = 0\<close>).
\<close>

theorem rescale_round_trip:
  assumes fl: "\<forall>v. \<bar>fl v - v\<bar> \<le> u * \<bar>v\<bar>" and u: "0 \<le> u"
    and s: "s1 \<noteq> 0" "s2 \<noteq> 0"
  shows "(s1 \<noteq> s2 \<and> ds \<noteq> [] \<longrightarrow>
          rescale_effect fl s2 (ds, s1) =
            (map (\<lambda>d. d\<lparr>d_x := fl (d_x d * fl (s2 / s1)), d_y := fl (d_y d * fl (s2 / s1)),
                          d_width := fl (d_width d * fl (s2 / s1)),
                          d_height := fl (d_height d * fl (s2 / s1))\<rparr>) ds, s2))
       \<and> snd (rescale_effect fl s1 (rescale_effect fl s2 (ds, s1))) = s1
       \<and> list_all2 (rect_close ((1 + u) ^ 4 - 1)) ds
             (fst (rescale_effect fl s1 (rescale_effect fl s2 (ds, s1))))"
proof (cases "s1 \<noteq> s2 \<and> ds \<noteq> []")
  case True
  have 1: "rescale_effect fl s2 (ds, s1) = (map (rescale_draft fl (fl (s2 / s1))) ds, s2)"
    using s True by (simp add: rescale_effect_def)
  have 2: "rescale_effect fl s1 (rescale_effect fl s2 (ds, s1)) =
      (map (rescale_draft fl (fl (s1 / s2))) (map (rescale_draft fl (fl (s2 / s1))) ds), s1)"
    unfolding 1 using s True by (simp add: rescale_effect_def)
  have 3: "list_all2 (rect_close ((1 + u) ^ 4 - 1)) ds
      (map (rescale_draft fl (fl (s1 / s2))) (map (rescale_draft fl (fl (s2 / s1))) ds))"
    using rescale_twice[OF fl u s] by (simp add: list_all2_conv_all_nth)
  show ?thesis unfolding 2 using 1 3 by (simp add: rescale_draft_def[abs_def])
next
  case False
  have nn: "0 \<le> (1 + u) ^ 4 - 1" using u by (simp add: one_le_power)
  have same: "rect_close ((1 + u) ^ 4 - 1) d d" for d
    using nn by (simp add: rect_close_def)
  have "rescale_effect fl s1 (rescale_effect fl s2 (ds, s1)) = (ds, s1)"
    using False by (auto simp: rescale_effect_def)
  then show ?thesis using False same by (auto simp: list_all2_conv_all_nth)
qed

theorem rescale_round_trip_witness:
  "fst (rescale_effect id 1.05 (rescale_effect id 2 ([sample_box], 1.05))) = [sample_box] \<and>
   fst (rescale_effect id 2 ([sample_box], 1.05)) = [blank_draft ''draft-1'' CHECKBOX 0 (40 * (2 / 1.05)) (40 * (2 / 1.05)) (200 * (2 / 1.05)) (40 * (2 / 1.05))]"
  using rescale_round_trip[of id 0 "1.05" 2 "[sample_box]"]
  by (simp add: rect_close_def sample_box_def blank_draft_def rescale_effect_def rescale_draft_def)


subsection \<open>Clamping\<close>

text \<open>Moving and resizing end in \<open>clampDraft\<close>, which keeps the draft inside.\<close>

lemma clampDraft_inside:
  assumes "array_get viewports (d_pageIndex d) = Some v"
  shows "inside_viewport v (clampDraft viewports d)"
  using assms by (auto simp: clampDraft_def inside_viewport_def clamp_def Let_def)

lemma handleDraftPointerMove_inside:
  assumes "array_get viewports (d_pageIndex d) = Some v"
  shows "inside_viewport v (handleDraftPointerMove viewports d mode handle dx dy)"
proof -
  have "\<exists>n. handleDraftPointerMove viewports d mode handle dx dy = clampDraft viewports n \<and>
      d_pageIndex n = d_pageIndex d"
    by (cases mode) (auto simp: handleDraftPointerMove_def Let_def)
  then show ?thesis using assms clampDraft_inside by metis
qed

text \<open>
  Claim C6 at two inputs where it fails.  A click with the signature tool
  at \<open>(10, 10)\<close> on a page rendered 150 by 100 pixels creates a draft with
  \<open>x = -50\<close>; drawing a text box from \<open>(10, 10)\<close> to \<open>(50, 50)\<close> on a page
  rendered 100 by 100 pixels creates a draft 140 pixels wide.  Neither lies
  inside its viewport.
\<close>

theorem created_draft_outside_viewport:
  "map_option (\<lambda>d. (d_x d, d_y d, d_width d, d_height d))
     (handleCanvasClick True False SIGNATURE ''data:image/png;base64,iVBORw0KGgo='' []
        [flip_viewport 150 100] ''draft-1'' 0 10 10) = Some (-50, 0, 200, 80) \<and>
   (\<lambda>d. (d_x d, d_y d, d_width d, d_height d))
     (handleTextPointerUp ''draft-2'' ''Hello'' [flip_viewport 100 100] 0 10 10
        (Some (pointerMove_band [flip_viewport 100 100] 0 10 10 50 50 (pointerDown_band 0 10 10))))
     = (0, 10, 140, 40) \<and>
   \<not> inside_viewport (flip_viewport 150 100)
       (the (handleCanvasClick True False SIGNATURE ''data:image/png;base64,iVBORw0KGgo='' []
        [flip_viewport 150 100] ''draft-1'' 0 10 10)) \<and>
   \<not> inside_viewport (flip_viewport 100 100)
       (handleTextPointerUp ''draft-2'' ''Hello'' [flip_viewport 100 100] 0 10 10
        (Some (pointerMove_band [flip_viewport 100 100] 0 10 10 50 50 (pointerDown_band 0 10 10))))"
  by (simp add: handleCanvasClick_def handleTextPointerUp_def pointerMove_band_def
      pointerDown_band_def flip_viewport_def array_get_def clamp_def blank_draft_def
      inside_viewport_def or0_def js_round_def)

theorem created_draft_outside_viewport_witness:
  "map_option d_x
     (handleCanvasClick True False SIGNATURE ''data:image/png;base64,iVBORw0KGgo='' []
        [flip_viewport 150 100] ''draft-1'' 0 10 10) = Some (-50)"
  using created_draft_outside_viewport by (auto simp: map_option_case split: option.splits)

section \<open>Properties of the signing handler\<close>

lemma decode_missing:
  "cert = JUndefined \<or> cert = JNull \<or> cert = JStr [] \<Longrightarrow>
   decodeBase64Payload f cert m label = Inl (Error (label @ '' data is missing.''))"
  by (auto simp: decodeBase64Payload_def)

lemma decode_pdf_cases:
  "decodeBase64Payload f d m ''PDF'' = Inl e \<Longrightarrow>
     e = Error ''PDF data is missing.'' \<or> e = Error ''PDF is too large.''"
  by (auto simp: decodeBase64Payload_def Let_def split: jsval.splits if_splits)

lemma signWithP12_pdf_rejected:
  "decodeBase64Payload (bufferFromBase64 env) (pdfBase64 p) MAX_PDF_BYTES ''PDF'' = Inl e \<Longrightarrow>
   signWithP12 env (Some p) = (caught e, [])"
  by (simp add: signWithP12_def)

lemma signWithP12_cert_rejected:
  "decodeBase64Payload (bufferFromBase64 env) (pdfBase64 p) MAX_PDF_BYTES ''PDF'' = Inr b \<Longrightarrow>
   decodeBase64Payload (bufferFromBase64 env) (certBase64 p) MAX_CERT_BYTES ''Certificate'' = Inl e \<Longrightarrow>
   signWithP12 env (Some p) = (caught e, [])"
  by (simp add: signWithP12_def)

text \<open>
  Claim C2, as amended.  A call whose certificate payload is missing or
  empty returns an error and calls no collaborator at all (no import, no
  load, no placeholder, no signing).  The error is
  \<open>Certificate data is missing.\<close> when the sender is trusted and the PDF
  payload is accepted; an untrusted sender and a rejected PDF payload are
  reported first.
\<close>

theorem sign_empty_certificate:
  assumes cert: "certBase64 p = JUndefined \<or> certBase64 p = JNull \<or> certBase64 p = JStr []"
  shows "snd (pdf_signWithP12 env trusted (Some p)) = [] \<and>
     fst (pdf_signWithP12 env trusted (Some p)) =
       (if \<not> trusted then SignError ''Untrusted request origin.''
        else case decodeBase64Payload (bufferFromBase64 env) (pdfBase64 p) MAX_PDF_BYTES ''PDF'' of
               Inl e \<Rightarrow> caught e
             | Inr b \<Rightarrow> SignError ''Certificate data is missing.'') \<and>
     (\<exists>m. fst (pdf_signWithP12 env trusted (Some p)) = SignError m \<and>
        m \<in> {''Untrusted request origin.'', ''PDF data is missing.'', ''PDF is too large.'',
              ''Certificate data is missing.''})"
proof (cases trusted)
  case False
  then show ?thesis by (simp add: pdf_signWithP12_def withTrustedSender_def)
next
  case True
  have c: "decodeBase64Payload (bufferFromBase64 env) (certBase64 p) MAX_CERT_BYTES ''Certificate''
      = Inl (Error ''Certificate data is missing.'')"
    using decode_missing[OF cert] by simp
  show ?thesis
  proof (cases "decodeBase64Payload (bufferFromBase64 env) (pdfBase64 p) MAX_PDF_BYTES ''PDF''")
    case (Inl e)
    from decode_pdf_cases[OF Inl] signWithP12_pdf_rejected[OF Inl] True Inl show ?thesis
      by (auto simp: pdf_signWithP12_def withTrustedSender_def)
  next
    case (Inr b)
    from signWithP12_cert_rejected[OF Inr c] True Inr show ?thesis
      by (simp add: pdf_signWithP12_def withTrustedSender_def)
  qed
qed

theorem sign_empty_certificate_witness:
  "pdf_signWithP12 sample_sign_env True (Some (sample_payload (JStr ''JVBERi0xLjc='') (JStr []) (JNum (Fin 0))))
     = (SignError ''Certificate data is missing.'', [])"
  using sign_empty_certificate[of "sample_payload (JStr ''JVBERi0xLjc='') (JStr []) (JNum (Fin 0))"
      sample_sign_env True]
  by (simp add: sample_payload_def no_payload_def sample_sign_env_def decodeBase64Payload_def
      MAX_PDF_BYTES_def prod_eq_iff)

text \<open>
  The claim as stated has every such call return the missing-certificate
  error.  With the PDF payload missing as well, the error is that of the PDF
  payload.
\<close>

theorem sign_empty_certificate_counterexample:
  "pdf_signWithP12 sample_sign_env True (Some (sample_payload JUndefined (JStr []) (JNum (Fin 0))))
     = (SignError ''PDF data is missing.'', []) \<and>
   fst (pdf_signWithP12 sample_sign_env True (Some (sample_payload JUndefined (JStr []) (JNum (Fin 0)))))
     \<noteq> SignError ''Certificate data is missing.''"
  by (simp add: pdf_signWithP12_def withTrustedSender_def signWithP12_def sample_payload_def
      no_payload_def decodeBase64Payload_def)


lemma safePageIndex_beyond:
  assumes "0 < n" "num_le (Fin (real n)) (toNumber s2n v)"
  shows "safePageIndex s2n v n = Fin (real n - 1)"
  using assms
  by (cases "toNumber s2n v") (auto simp: safePageIndex_def num_or_def js_max_def js_min_def)

lemma safePageIndex_below:
  assumes "0 < n" "toNumber s2n v = NaN \<or> num_le (toNumber s2n v) (Fin 0)"
  shows "safePageIndex s2n v n = Fin 0"
  using assms
  by (cases "toNumber s2n v") (auto simp: safePageIndex_def num_or_def js_max_def js_min_def)

lemma page_at_last: "0 < n \<Longrightarrow> page_at (Fin (real n - 1)) n = Some (n - 1)"
proof -
  assume n: "0 < n"
  have "real n - 1 = of_int (int n - 1)" by simp
  then have fl: "\<lfloor>real n - 1\<rfloor> = int n - 1" by (metis floor_of_int)
  show ?thesis using n by (auto simp: fl)
qed

lemma page_at_first: "0 < n \<Longrightarrow> page_at (Fin 0) n = Some 0"
  by simp

lemma signWithP12_placeholder:
  assumes "decodeBase64Payload (bufferFromBase64 env) (pdfBase64 p) MAX_PDF_BYTES ''PDF'' = Inr pdfBuffer"
    and "decodeBase64Payload (bufferFromBase64 env) (certBase64 p) MAX_CERT_BYTES ''Certificate'' = Inr certBuffer"
    and "importModules env = Inr True"
    and "loadPdf env pdfBuffer = Inr doc"
  shows "\<exists>args rest. snd (signWithP12 env (Some p)) = Import # Load # AddPlaceholder args # rest \<and>
      ph_page args = page_at (safePageIndex (stringToNumber env) (p_pageIndex p) (pageCountOf env doc))
         (pageCountOf env doc)"
  using assms by (simp add: signWithP12_def Let_def split: sum.splits)

text \<open>
  Claim C3, as amended.  In a call that reaches the placeholder step (both
  payloads accepted, the signing modules present, the document loaded with
  at least one page), a page index at or beyond the page count resolves to
  the last page, and a page index that is negative, zero or not a number
  resolves to the first page; the placeholder step is invoked with that page.
\<close>

theorem sign_page_index_clamped:
  assumes pdf: "decodeBase64Payload (bufferFromBase64 env) (pdfBase64 p) MAX_PDF_BYTES ''PDF'' = Inr pdfBuffer"
    and cert: "decodeBase64Payload (bufferFromBase64 env) (certBase64 p) MAX_CERT_BYTES ''Certificate'' = Inr certBuffer"
    and imp: "importModules env = Inr True"
    and load: "loadPdf env pdfBuffer = Inr doc"
    and n: "0 < pageCountOf env doc"
  shows "(num_le (Fin (real (pageCountOf env doc))) (toNumber (stringToNumber env) (p_pageIndex p)) \<longrightarrow>
           safePageIndex (stringToNumber env) (p_pageIndex p) (pageCountOf env doc)
             = Fin (real (pageCountOf env doc) - 1) \<and>
           (\<exists>args rest. snd (pdf_signWithP12 env True (Some p)) = Import # Load # AddPlaceholder args # rest \<and>
              ph_page args = Some (pageCountOf env doc - 1)))
       \<and> (toNumber (stringToNumber env) (p_pageIndex p) = NaN \<or>
           num_le (toNumber (stringToNumber env) (p_pageIndex p)) (Fin 0) \<longrightarrow>
           safePageIndex (stringToNumber env) (p_pageIndex p) (pageCountOf env doc) = Fin 0 \<and>
           (\<exists>args rest. snd (pdf_signWithP12 env True (Some p)) = Import # Load # AddPlaceholder args # rest \<and>
              ph_page args = Some 0))"
  using signWithP12_placeholder[OF pdf cert imp load] n
    safePageIndex_beyond[OF n] safePageIndex_below[OF n] page_at_last[OF n] page_at_first[OF n]
  by (auto simp: pdf_signWithP12_def withTrustedSender_def safePageIndex_beyond safePageIndex_below)


theorem sign_page_index_clamped_witness:
  "(\<exists>args rest. snd (pdf_signWithP12 sample_sign_env True
        (Some (sample_payload (JStr ''JVBERi0xLjc='') (JStr ''MIIJ'') (JNum (Fin 7)))))
       = Import # Load # AddPlaceholder args # rest \<and> ph_page args = Some 2) \<and>
   (\<exists>args rest. snd (pdf_signWithP12 sample_sign_env True
        (Some (sample_payload (JStr ''JVBERi0xLjc='') (JStr ''MIIJ'') (JStr ''last''))))
       = Import # Load # AddPlaceholder args # rest \<and> ph_page args = Some 0)"
  using sign_page_index_clamped[of sample_sign_env
      "sample_payload (JStr ''JVBERi0xLjc='') (JStr ''MIIJ'') (JNum (Fin 7))"
      "bufferFromBase64 sample_sign_env ''JVBERi0xLjc=''"
      "bufferFromBase64 sample_sign_env ''MIIJ''" 3]
    sign_page_index_clamped[of sample_sign_env
      "sample_payload (JStr ''JVBERi0xLjc='') (JStr ''MIIJ'') (JStr ''last'')"
      "bufferFromBase64 sample_sign_env ''JVBERi0xLjc=''"
      "bufferFromBase64 sample_sign_env ''MIIJ''" 3]
  by (simp add: sample_payload_def no_payload_def sample_sign_env_def decodeBase64Payload_def
      MAX_PDF_BYTES_def MAX_CERT_BYTES_def)

text \<open>
  The claim as stated has every out-of-range index resolve to the last
  page.  The index \<open>-1\<close> on a document of three pages resolves to page 0.
\<close>

theorem sign_negative_index_counterexample:
  "safePageIndex (\<lambda>s. NaN) (JNum (Fin (- 1))) 3 = Fin 0 \<and>
   page_at (safePageIndex (\<lambda>s. NaN) (JNum (Fin (- 1))) 3) 3 = Some 0 \<and>
   page_at (safePageIndex (\<lambda>s. NaN) (JNum (Fin (- 1))) 3) 3 \<noteq> Some 2"
  by (simp add: safePageIndex_def num_or_def js_max_def js_min_def)

section \<open>Properties of \<open>addSignatureToPdf\<close> and \<open>setFormFieldValue\<close>\<close>

lemma split_on_none: "c \<notin> set s \<Longrightarrow> split_on c s = [s]"
  by (induction s) auto

lemma split_on_first:
  "c \<notin> set pre \<Longrightarrow> split_on c (pre @ c # post) = pre # split_on c post"
  by (induction pre) auto

lemma dataUrlToBytes_missing:
  "u = None \<or> u = Some [] \<Longrightarrow> dataUrlToBytes lib u = Inr None"
  by (auto simp: dataUrlToBytes_def)

lemma dataUrlToBytes_empty_body:
  assumes "CHR '','' \<notin> set pre" and "atob lib [] = Inr []"
  shows "dataUrlToBytes lib (Some (pre @ '','')) = Inr (Some [])"
proof -
  have "split_on (CHR '','') (pre @ '','') = [pre, []]"
    using split_on_first[OF assms(1), of "[]"] by simp
  then show ?thesis using assms(2) by (simp add: dataUrlToBytes_def and_then_def)
qed

text \<open>
  Claim C10, as amended.  On bytes that load, \<open>addSignatureToPdf\<close> called
  with no data URL, or with the empty string, returns the input bytes.  A
  data URL that ends at its comma, with no base64 body, is not such a case:
  where \<open>atob\<close> decodes the empty body to no bytes and \<open>embedPng\<close> rejects
  them, the operation raises that error.
\<close>

theorem addSignatureToPdf_no_image:
  assumes ld: "load lib bytes = Inr doc"
  shows "(s_dataUrl a = None \<or> s_dataUrl a = Some [] \<longrightarrow> addSignatureToPdf lib bytes a = Inr bytes) \<and>
     (\<forall>pre e. s_dataUrl a = Some (pre @ '','') \<and> CHR '','' \<notin> set pre \<and> atob lib [] = Inr [] \<and>
        embedPng lib [] doc = Inl e \<longrightarrow> addSignatureToPdf lib bytes a = Inl e)"
proof (intro conjI impI allI)
  assume "s_dataUrl a = None \<or> s_dataUrl a = Some []"
  then have "dataUrlToBytes lib (s_dataUrl a) = Inr None" by (rule dataUrlToBytes_missing)
  then show "addSignatureToPdf lib bytes a = Inr bytes"
    using ld by (simp add: addSignatureToPdf_def and_then_def)
next
  fix pre e
  assume h: "s_dataUrl a = Some (pre @ '','') \<and> CHR '','' \<notin> set pre \<and> atob lib [] = Inr [] \<and>
        embedPng lib [] doc = Inl e"
  then have "dataUrlToBytes lib (s_dataUrl a) = Inr (Some [])"
    using dataUrlToBytes_empty_body[of pre lib] by simp
  then show "addSignatureToPdf lib bytes a = Inl e"
    using ld h by (simp add: addSignatureToPdf_def and_then_def)
qed

lemma sample_load: "load sample_lib sample_pdf = Inr (sample_pdf, [])"
  by (simp add: sample_lib_def sample_pdf_def as_bytes_def)

theorem addSignatureToPdf_no_image_witness:
  "addSignatureToPdf sample_lib sample_pdf (sample_signature_args None) = Inr sample_pdf \<and>
   addSignatureToPdf sample_lib sample_pdf (sample_signature_args (Some [])) = Inr sample_pdf \<and>
   addSignatureToPdf sample_lib sample_pdf (sample_signature_args (Some ''data:image/png;base64,''))
     = Inl (Error ''The input is not a PNG file!'')"
proof -
  have a: "atob sample_lib [] = Inr []" by (simp add: sample_lib_def sample_atob_def)
  have e: "embedPng sample_lib [] (sample_pdf, []) = Inl (Error ''The input is not a PNG file!'')"
    by (simp add: sample_lib_def)
  show ?thesis
    using addSignatureToPdf_no_image[OF sample_load, of "sample_signature_args None"]
      addSignatureToPdf_no_image[OF sample_load, of "sample_signature_args (Some [])"]
      addSignatureToPdf_no_image[OF sample_load,
        of "sample_signature_args (Some ''data:image/png;base64,'')"] a e
    by (simp add: sample_signature_args_def)
qed

text \<open>
  The claim as stated has a data URL with no base64 body return the input
  bytes.  With the sample library the call raises the PNG decoder's error.
\<close>

theorem addSignatureToPdf_empty_body_counterexample:
  "addSignatureToPdf sample_lib sample_pdf (sample_signature_args (Some ''data:image/png;base64,''))
     = Inl (Error ''The input is not a PNG file!'') \<and>
   addSignatureToPdf sample_lib sample_pdf (sample_signature_args (Some ''data:image/png;base64,''))
     \<noteq> Inr sample_pdf"
  by (simp add: addSignatureToPdf_def dataUrlToBytes_def and_then_def sample_signature_args_def
      sample_lib_def sample_pdf_def as_bytes_def sample_atob_def)

text \<open>
  Claim C4.  On bytes that load, \<open>setFormFieldValue\<close> returns the input
  bytes when the document has no field of the given name.  When it has
  one, the write is chosen by the field's kind: a text field is set to the
  value as a string (the empty string for \<open>undefined\<close> and \<open>null\<close>); a checkbox
  is checked when the value is truthy and unchecked otherwise; a dropdown,
  an option list and a radio group select the value as a string when it is
  truthy and are left alone otherwise.  The appearances are then updated
  and the document saved.
\<close>

theorem setFormFieldValue_dispatch:
  assumes ld: "load lib bytes = Inr doc"
  shows "(getField lib (embedFont lib Helvetica doc) fieldName = None \<longrightarrow>
            setFormFieldValue lib bytes fieldName v = Inr bytes) \<and>
     (getField lib (embedFont lib Helvetica doc) fieldName = Some PDFTextField \<longrightarrow>
            setFormFieldValue lib bytes fieldName v =
              and_then (setText lib fieldName (js_String (numberToString lib) (nullish_or_empty v))
                          (embedFont lib Helvetica doc))
                (\<lambda>d. and_then (updateFieldAppearances lib Helvetica d) (save lib))) \<and>
     (getField lib (embedFont lib Helvetica doc) fieldName = Some PDFCheckBox \<longrightarrow>
            setFormFieldValue lib bytes fieldName v =
              and_then (if truthy v then check lib fieldName (embedFont lib Helvetica doc)
                        else uncheck lib fieldName (embedFont lib Helvetica doc))
                (\<lambda>d. and_then (updateFieldAppearances lib Helvetica d) (save lib))) \<and>
     (getField lib (embedFont lib Helvetica doc) fieldName = Some PDFDropdown \<or>
      getField lib (embedFont lib Helvetica doc) fieldName = Some PDFOptionList \<or>
      getField lib (embedFont lib Helvetica doc) fieldName = Some PDFRadioGroup \<longrightarrow>
            setFormFieldValue lib bytes fieldName v =
              and_then (if truthy v
                        then select lib fieldName (js_String (numberToString lib) v)
                               (embedFont lib Helvetica doc)
                        else Inr (embedFont lib Helvetica doc))
                (\<lambda>d. and_then (updateFieldAppearances lib Helvetica d) (save lib)))"
  using ld by (auto simp: setFormFieldValue_def and_then_def Let_def)

theorem setFormFieldValue_dispatch_witness:
  "setFormFieldValue sample_lib sample_pdf ''ghost-field'' (JStr ''x'') = Inr sample_pdf \<and>
   setFormFieldValue sample_lib sample_pdf ''fullName'' (JStr ''Ada'')
     = Inr (sample_pdf @ as_bytes ''/Font/V Ada/AP'') \<and>
   setFormFieldValue sample_lib sample_pdf ''agree'' (JBool False)
     = Inr (sample_pdf @ as_bytes ''/Font/V /Off/AP'')"
  using setFormFieldValue_dispatch[OF sample_load, of "''ghost-field''" "JStr ''x''"]
    setFormFieldValue_dispatch[OF sample_load, of "''fullName''" "JStr ''Ada''"]
    setFormFieldValue_dispatch[OF sample_load, of "''agree''" "JBool False"]
  by (simp add: sample_lib_def and_then_def op_done_def as_bytes_def)


section \<open>Properties of the export\<close>

subsection \<open>The document and the drafts change only at the end\<close>

lemma same_document_refl: "same_document s s"
  by (simp add: same_document_def)

lemma same_document_log: "same_document (log_effect e s) t = same_document s t"
  by (simp add: same_document_def log_effect_def)

lemma same_document_flash: "same_document (flashStatus m tone s) t = same_document s t"
  by (simp add: same_document_def flashStatus_def)

lemma same_document_signError: "same_document (s\<lparr>signError := m\<rparr>) t = same_document s t"
  by (simp add: same_document_def)

lemmas same_document_simps =
  same_document_refl same_document_log same_document_flash same_document_signError

lemma export_sign_same: "same_document (result_state (export_sign lib api st b)) st"
  by (simp add: export_sign_def Let_def same_document_simps
      split: option.splits sum.splits sign_result.splits)

lemma export_try_same: "same_document (result_state (export_try lib api st b)) st"
  by (simp add: export_try_def export_sign_same same_document_simps split: sum.splits)

lemma write_out_same: "same_document (fst (write_out api savePath data b st)) t = same_document st t"
  by (simp add: write_out_def same_document_simps split: option.splits prod.splits)


lemma export_from_cases:
  "same_document (export_from lib api savePath nb st) st \<or>
   (\<exists>st1 b didSign st2.
      export_try lib api st nb = Completed st1 b didSign \<and>
      write_out api savePath (btoa lib b) b st1 = (st2, None) \<and>
      export_from lib api savePath nb st = export_finish savePath b didSign st2)"
proof (cases "export_try lib api st nb")
  case (Thrown s e)
  then have "same_document s st" using export_try_same[of lib api st nb] by simp
  then show ?thesis using Thrown by (simp add: export_from_def same_document_simps)
next
  case (Returned s)
  then have "same_document s st" using export_try_same[of lib api st nb] by simp
  then show ?thesis using Returned by (simp add: export_from_def)
next
  case (Completed s b didSign)
  then have ss: "same_document s st" using export_try_same[of lib api st nb] by simp
  obtain st2 err where w: "write_out api savePath (btoa lib b) b s = (st2, err)"
    by (cases "write_out api savePath (btoa lib b) b s") auto
  have s2: "same_document st2 st"
    using write_out_same[of api savePath "btoa lib b" b s st] w ss by simp
  show ?thesis
  proof (cases err)
    case None
    then show ?thesis using Completed w by (simp add: export_from_def)
  next
    case (Some e)
    then show ?thesis using Completed w s2 by (simp add: export_from_def same_document_simps)
  qed
qed

lemma same_document_trans:
  "same_document a b \<Longrightarrow> same_document b c \<Longrightarrow> same_document a c"
  by (simp add: same_document_def)

lemma via_export_from:
  assumes eq: "handleExport lib api st = export_from lib api savePath nb s"
    and s: "s = st\<lparr>signError := []\<rparr> \<or> s = log_effect (SavePdfPath (pdfName st)) (st\<lparr>signError := []\<rparr>)"
    and nb: "\<exists>pb. pdfBytes st = Some pb \<and> normalizePdfBytes (atob lib) pb = Some nb"
  shows "same_document (handleExport lib api st) st \<or>
   (\<exists>savePath nb st0 st1 b didSign st2.
      (st0 = st\<lparr>signError := []\<rparr> \<or>
       st0 = log_effect (SavePdfPath (pdfName st)) (st\<lparr>signError := []\<rparr>)) \<and>
      (\<exists>pb. pdfBytes st = Some pb \<and> normalizePdfBytes (atob lib) pb = Some nb) \<and>
      export_try lib api st0 nb = Completed st1 b didSign \<and>
      write_out api savePath (btoa lib b) b st1 = (st2, None) \<and>
      handleExport lib api st = export_finish savePath b didSign st2)"
proof -
  have ss: "same_document s st" using s by (auto simp: same_document_simps)
  from export_from_cases[of lib api savePath nb s]
  show ?thesis
  proof
    assume "same_document (export_from lib api savePath nb s) s"
    then have "same_document (handleExport lib api st) st"
      unfolding eq using ss by (rule same_document_trans)
    then show ?thesis by (rule disjI1)
  next
    assume "\<exists>st1 b didSign st2.
      export_try lib api s nb = Completed st1 b didSign \<and>
      write_out api savePath (btoa lib b) b st1 = (st2, None) \<and>
      export_from lib api savePath nb s = export_finish savePath b didSign st2"
    then obtain st1 b didSign st2 where
      "export_try lib api s nb = Completed st1 b didSign"
      "write_out api savePath (btoa lib b) b st1 = (st2, None)"
      "handleExport lib api st = export_finish savePath b didSign st2"
      unfolding eq by blast
    with s nb show ?thesis by blast
  qed
qed

lemma handleExport_cases:
  "same_document (handleExport lib api st) st \<or>
   (\<exists>savePath nb st0 st1 b didSign st2.
      (st0 = st\<lparr>signError := []\<rparr> \<or>
       st0 = log_effect (SavePdfPath (pdfName st)) (st\<lparr>signError := []\<rparr>)) \<and>
      (\<exists>pb. pdfBytes st = Some pb \<and> normalizePdfBytes (atob lib) pb = Some nb) \<and>
      export_try lib api st0 nb = Completed st1 b didSign \<and>
      write_out api savePath (btoa lib b) b st1 = (st2, None) \<and>
      handleExport lib api st = export_finish savePath b didSign st2)"
proof (cases "pdfBytes st")
  case None
  then have "handleExport lib api st = st" by (simp add: handleExport_def)
  then show ?thesis by (simp add: same_document_refl)
next
  case (Some pb)
  let ?s = "st\<lparr>signError := []\<rparr>"
  show ?thesis
  proof (cases "normalizePdfBytes (atob lib) pb")
    case None
    then have "same_document (handleExport lib api st) st"
      using Some by (simp add: handleExport_def same_document_simps)
    then show ?thesis by (rule disjI1)
  next
    case nb: (Some nextBytes)
    have nbp: "\<exists>pb. pdfBytes st = Some pb \<and> normalizePdfBytes (atob lib) pb = Some nextBytes"
      using Some nb by simp
    show ?thesis
    proof (cases "hasPdfHeader nextBytes")
      case False
      then have "same_document (handleExport lib api st) st"
        using Some nb by (simp add: handleExport_def same_document_simps)
      then show ?thesis by (rule disjI1)
    next
      case True
      show ?thesis
      proof (cases "api_savePdfPath api")
        case None
        have "handleExport lib api st = export_from lib api None nextBytes ?s"
          using Some nb True None by (simp add: handleExport_def)
        then show ?thesis by (rule via_export_from) (use nbp in simp_all)
      next
        case sp: (Some savePdfPath)
        let ?l = "log_effect (SavePdfPath (pdfName ?s)) ?s"
        have l: "?l = log_effect (SavePdfPath (pdfName st)) ?s" by simp
        show ?thesis
        proof (cases "savePdfPath (pdfName ?s)")
          case (Inl e)
          then have "same_document (handleExport lib api st) st"
            using Some nb True sp by (simp add: handleExport_def same_document_simps)
          then show ?thesis by (rule disjI1)
        next
          case (Inr r)
          show ?thesis
          proof (cases r)
            case None
            then have "same_document (handleExport lib api st) st"
              using Some nb True sp Inr by (simp add: handleExport_def same_document_simps)
            then show ?thesis by (rule disjI1)
          next
            case p: (Some path)
            show ?thesis
            proof (cases "path = []")
              case e: True
              then have "same_document (handleExport lib api st) st"
                using Some nb True sp Inr p by (simp add: handleExport_def same_document_simps)
              then show ?thesis by (rule disjI1)
            next
              case ne: False
              have "handleExport lib api st = export_from lib api (Some path) nextBytes ?l"
                using Some nb True sp Inr p ne by (simp add: handleExport_def)
              then show ?thesis by (rule via_export_from) (use nbp l in simp_all)
            qed
          qed
        qed
      qed
    qed
  qed
qed

subsection \<open>A step that returns invalid bytes\<close>

lemma export_drafts_append:
  "export_drafts lib vps incl (pre @ d # post) b =
     (case export_drafts lib vps incl pre b of
        Inl e \<Rightarrow> Inl e
      | Inr b1 \<Rightarrow>
          (case export_draft lib vps incl d b1 of
             Inl e \<Rightarrow> Inl e
           | Inr b2 \<Rightarrow> export_drafts lib vps incl post b2))"
  by (induction pre arbitrary: b) (auto split: sum.splits)

lemma export_draft_invalid:
  assumes "step_yields lib vps incl d b context out" and "\<not> hasPdfHeader out"
  shows "export_draft lib vps incl d b = Inl (Error (''Invalid PDF data after '' @ context @ ''.''))"
proof -
  obtain rect where r: "resolveDraftRect vps d = Some rect"
    using assms(1) by (cases "resolveDraftRect vps d") (auto simp: step_yields_def)
  show ?thesis
    using assms r by (auto simp: step_yields_def export_draft_def and_then_def ensurePdf_def)
qed

lemma export_try_invalid:
  assumes ds: "drafts st = pre @ d # post"
    and pre: "export_drafts lib (pageViewports st) (includeVisualSignature st) pre nextBytes = Inr b1"
    and step: "step_yields lib (pageViewports st) (includeVisualSignature st) d b1 context out"
    and bad: "\<not> hasPdfHeader out"
  shows "export_try lib api st nextBytes =
     Thrown st (Error (''Invalid PDF data after '' @ context @ ''.''))"
  using export_draft_invalid[OF step bad] pre
  by (simp add: export_try_def ds export_drafts_append)


lemma export_from_thrown:
  assumes "export_try lib api s nb = Thrown s e"
  shows "export_from lib api savePath nb s =
      flashStatus ''Export failed. Please try again or reopen the PDF.'' ''error''
        ((log_effect (ConsoleError ''Export failed'' e) s)
           \<lparr>signError := ''Export failed. Please try again or reopen the PDF.''\<rparr>)"
  using assms by (simp add: export_from_def)

lemma handleExport_invalid_step:
  assumes pb: "pdfBytes st = Some pb"
    and nb: "normalizePdfBytes (atob lib) pb = Some nextBytes"
    and hd: "hasPdfHeader nextBytes"
    and dlg: "api_savePdfPath api = None \<or>
        (\<exists>f path. api_savePdfPath api = Some f \<and> f (pdfName st) = Inr (Some path) \<and> path \<noteq> [])"
    and ds: "drafts st = pre @ d # post"
    and pre: "export_drafts lib (pageViewports st) (includeVisualSignature st) pre nextBytes = Inr b1"
    and step: "step_yields lib (pageViewports st) (includeVisualSignature st) d b1 context out"
    and bad: "\<not> hasPdfHeader out"
  shows "pdfBytes (handleExport lib api st) = pdfBytes st \<and>
     drafts (handleExport lib api st) = drafts st \<and>
     signError (handleExport lib api st) = ''Export failed. Please try again or reopen the PDF.'' \<and>
     statusMessage (handleExport lib api st) =
       Some (''Export failed. Please try again or reopen the PDF.'', ''error'') \<and>
     effects (handleExport lib api st) =
       effects st @ (if api_savePdfPath api = None then [] else [SavePdfPath (pdfName st)]) @
       [ConsoleError ''Export failed'' (Error (''Invalid PDF data after '' @ context @ ''.''))]"
proof -
  let ?e = "Error (''Invalid PDF data after '' @ context @ ''.'')"
  let ?s = "st\<lparr>signError := []\<rparr>"
  from dlg show ?thesis
  proof
    assume none: "api_savePdfPath api = None"
    have ds': "drafts ?s = pre @ d # post" using ds by simp
    have pre': "export_drafts lib (pageViewports ?s) (includeVisualSignature ?s) pre nextBytes = Inr b1"
      using pre by simp
    have step': "step_yields lib (pageViewports ?s) (includeVisualSignature ?s) d b1 context out"
      using step by simp
    have t: "export_try lib api ?s nextBytes = Thrown ?s ?e"
      by (rule export_try_invalid[OF ds' pre' step' bad])
    have "handleExport lib api st = export_from lib api None nextBytes ?s"
      using pb nb hd none by (simp add: handleExport_def)
    then have r: "handleExport lib api st =
        flashStatus ''Export failed. Please try again or reopen the PDF.'' ''error''
          ((log_effect (ConsoleError ''Export failed'' ?e) ?s)
             \<lparr>signError := ''Export failed. Please try again or reopen the PDF.''\<rparr>)"
      by (simp only: export_from_thrown[OF t])
    show ?thesis
      unfolding r using none by (simp add: flashStatus_def log_effect_def)
  next
    assume "\<exists>f path. api_savePdfPath api = Some f \<and> f (pdfName st) = Inr (Some path) \<and> path \<noteq> []"
    then obtain f path where f: "api_savePdfPath api = Some f" "f (pdfName st) = Inr (Some path)"
        "path \<noteq> []" by blast
    let ?l = "log_effect (SavePdfPath (pdfName ?s)) ?s"
    have ds': "drafts ?l = pre @ d # post" using ds by (simp add: log_effect_def)
    have pre': "export_drafts lib (pageViewports ?l) (includeVisualSignature ?l) pre nextBytes = Inr b1"
      using pre by (simp add: log_effect_def)
    have step': "step_yields lib (pageViewports ?l) (includeVisualSignature ?l) d b1 context out"
      using step by (simp add: log_effect_def)
    have t: "export_try lib api ?l nextBytes = Thrown ?l ?e"
      by (rule export_try_invalid[OF ds' pre' step' bad])
    have "handleExport lib api st = export_from lib api (Some path) nextBytes ?l"
      using pb nb hd f by (simp add: handleExport_def)
    then have r: "handleExport lib api st =
        flashStatus ''Export failed. Please try again or reopen the PDF.'' ''error''
          ((log_effect (ConsoleError ''Export failed'' ?e) ?l)
             \<lparr>signError := ''Export failed. Please try again or reopen the PDF.''\<rparr>)"
      by (simp only: export_from_thrown[OF t])
    show ?thesis
      unfolding r using f by (simp add: flashStatus_def log_effect_def)
  qed
qed

text \<open>
  Claim C1.  Suppose the export reaches the loop over the drafts (the
  document bytes have the \<open>%PDF\<close> header and the save dialog, where there
  is one, gave a path), the drafts before \<open>d\<close> go through, and the call made
  for \<open>d\<close> returns bytes without the header.  Then the export stops: the
  error \<open>Invalid PDF data after\<close> \<open>context\<close> is raised and logged to the
  console, the user is shown \<open>Export failed. Please try again or reopen the
  PDF.\<close>, nothing is signed or written, and the document bytes and the
  drafts are as before.  In general the export leaves the document bytes and
  the drafts as they are unless the \<open>try\<close> block, entered with the
  document's bytes, completes and the write does not throw.
\<close>

theorem export_aborts_on_invalid_step:
  "(pdfBytes st = Some pb \<and> normalizePdfBytes (atob lib) pb = Some nextBytes \<and>
    hasPdfHeader nextBytes \<and>
    (api_savePdfPath api = None \<or>
       (\<exists>f path. api_savePdfPath api = Some f \<and> f (pdfName st) = Inr (Some path) \<and> path \<noteq> [])) \<and>
    drafts st = pre @ d # post \<and>
    export_drafts lib (pageViewports st) (includeVisualSignature st) pre nextBytes = Inr b1 \<and>
    step_yields lib (pageViewports st) (includeVisualSignature st) d b1 context out \<and>
    \<not> hasPdfHeader out \<longrightarrow>
      pdfBytes (handleExport lib api st) = pdfBytes st \<and>
      drafts (handleExport lib api st) = drafts st \<and>
      signError (handleExport lib api st) = ''Export failed. Please try again or reopen the PDF.'' \<and>
      statusMessage (handleExport lib api st) =
        Some (''Export failed. Please try again or reopen the PDF.'', ''error'') \<and>
      effects (handleExport lib api st) =
        effects st @ (if api_savePdfPath api = None then [] else [SavePdfPath (pdfName st)]) @
        [ConsoleError ''Export failed'' (Error (''Invalid PDF data after '' @ context @ ''.''))]) \<and>
   (same_document (handleExport lib api st) st \<or>
    (\<exists>savePath nb st0 st1 b didSign st2.
       (st0 = st\<lparr>signError := []\<rparr> \<or>
        st0 = log_effect (SavePdfPath (pdfName st)) (st\<lparr>signError := []\<rparr>)) \<and>
       (\<exists>pb. pdfBytes st = Some pb \<and> normalizePdfBytes (atob lib) pb = Some nb) \<and>
       export_try lib api st0 nb = Completed st1 b didSign \<and>
       write_out api savePath (btoa lib b) b st1 = (st2, None) \<and>
       handleExport lib api st = export_finish savePath b didSign st2))"
  using handleExport_invalid_step[of st pb lib nextBytes api pre d post b1 "context" out]
    handleExport_cases[of lib api st]
  by blast


lemma sample_rect:
  "resolveDraftRect [flip_viewport 612 792] sample_text =
     Some \<lparr>r_pageIndex = 0, r_x = 40, r_y = 712, r_width = 200, r_height = 40\<rparr>"
  by (simp add: resolveDraftRect_def array_get_def flip_viewport_def sample_text_def blank_draft_def)

lemma sample_wrap: "wrapText ''Hello'' courier_like 24 (Some 192) = [''Hello'']"
  by (simp add: wrapText_def wrap_paragraph_def words_of_def testLine_def courier_like_def js_ws_def)

lemma sample_ink: "hexToRgb (rgb headerless_lib) (Some ''#0d1117'') = Inr (Rgb (Fin (13 / 255)) (Fin (17 / 255)) (Fin (23 / 255)))"
  by (simp add: hexToRgb_def js_slice_def parseInt16_def strip_sign_def strip_0x_def
      js_ws_def is_hex_def hex_digit_def headerless_lib_def sample_lib_def in_unit_def)

lemma sample_text_call:
  "addTextToPdf headerless_lib sample_pdf
     (text_call \<lparr>r_pageIndex = 0, r_x = 40, r_y = 712, r_width = 200, r_height = 40\<rparr> sample_text)
   = Inr (as_bytes ''/Font/Text Hello'')"
proof -
  have tc: "text_call \<lparr>r_pageIndex = 0, r_x = 40, r_y = 712, r_width = 200, r_height = 40\<rparr> sample_text
     = \<lparr>a_pageIndex = 0, a_x = 44, a_y = 728, a_text = Some ''Hello'', a_size = Some 24,
        a_fontFamily = Some ''helvetica'', a_fontWeight = Some ''normal'',
        a_fontStyle = Some ''normal'', a_underline = False, a_color = Some ''#0d1117'',
        a_maxWidth = Some 192, a_lineHeight = Some (24 * 1.2)\<rparr>"
    by (simp add: text_call_def sample_text_def blank_draft_def real_or_def str_or_def)
  have ld: "load headerless_lib sample_pdf = Inr (sample_pdf, [])"
    by (simp add: headerless_lib_def sample_lib_def sample_pdf_def as_bytes_def)
  have w: "widthOfTextAtSize headerless_lib Helvetica = courier_like"
    by (simp add: headerless_lib_def sample_lib_def)
  have f: "resolveFontName (Some ''helvetica'') (Some ''normal'') (Some ''normal'') = Helvetica"
    by (simp add: resolveFontName_def str_or_def js_lower_def)
  show ?thesis
    unfolding tc
    by (simp add: addTextToPdf_def and_then_def ld f w sample_ink sample_wrap real_or_def
        str_or_def resolvePage_def on_page_def)
       (simp add: headerless_lib_def sample_lib_def op_done_def as_bytes_def)
qed


theorem export_aborts_on_invalid_step_witness:
  "pdfBytes (handleExport headerless_lib no_bridge (sample_app [sample_text])) = Some (U8 sample_pdf) \<and>
   drafts (handleExport headerless_lib no_bridge (sample_app [sample_text])) = [sample_text] \<and>
   signError (handleExport headerless_lib no_bridge (sample_app [sample_text]))
     = ''Export failed. Please try again or reopen the PDF.'' \<and>
   effects (handleExport headerless_lib no_bridge (sample_app [sample_text]))
     = [ConsoleError ''Export failed'' (Error ''Invalid PDF data after adding text.'')]"
proof -
  have step: "step_yields headerless_lib [flip_viewport 612 792] True sample_text sample_pdf
      ''adding text'' (as_bytes ''/Font/Text Hello'')"
    by (simp add: step_yields_def sample_rect sample_text_call)
       (simp add: sample_text_def blank_draft_def)
  have bad: "\<not> hasPdfHeader (as_bytes ''/Font/Text Hello'')"
    by (simp add: hasPdfHeader_def as_bytes_def)
  have hd: "hasPdfHeader sample_pdf"
    by (simp add: hasPdfHeader_def sample_pdf_def as_bytes_def)
  show ?thesis
    using export_aborts_on_invalid_step[of "sample_app [sample_text]" "U8 sample_pdf"
        headerless_lib sample_pdf no_bridge "[]" sample_text "[]" sample_pdf "''adding text''"
        "as_bytes ''/Font/Text Hello''"] step bad hd
    by (simp add: sample_app_def no_bridge_def normalizePdfBytes_def)
qed

subsection \<open>No drafts\<close>

lemma export_try_zero:
  "drafts s = [] \<Longrightarrow> export_try lib api s b = Completed s b False"
  by (simp add: export_try_def export_sign_def)

lemma write_out_effects:
  "\<exists>e. effects (fst (write_out api savePath (btoa lib b) b s)) = effects s @ [e] \<and> hands_over lib b e"
  by (auto simp: write_out_def log_effect_def hands_over_def split: option.splits)

lemma write_out_fields:
  "pdfBytes (fst (write_out api savePath data b s)) = pdfBytes s \<and>
   drafts (fst (write_out api savePath data b s)) = drafts s"
  by (auto simp: write_out_def log_effect_def split: option.splits)

lemma export_finish_fields:
  "effects (export_finish savePath b didSign s) = effects s \<and>
   pdfBytes (export_finish savePath b didSign s) = Some (U8 b) \<and>
   drafts (export_finish savePath b didSign s) = []"
  by (simp add: export_finish_def flashStatus_def Let_def)

lemma export_from_zero:
  assumes "drafts s = []"
  shows "\<exists>e. effects (export_from lib api savePath b s) = effects s @ e \<and>
      (\<forall>x \<in> set e. hands_over lib b x) \<and>
      (pdfBytes (export_from lib api savePath b s) = pdfBytes s \<or>
       pdfBytes (export_from lib api savePath b s) = Some (U8 b))"
proof -
  obtain s2 err where w: "write_out api savePath (btoa lib b) b s = (s2, err)"
    by (cases "write_out api savePath (btoa lib b) b s") auto
  obtain e where e: "effects s2 = effects s @ [e]" "hands_over lib b e"
    using write_out_effects[of api savePath lib b s] w by auto
  have p: "pdfBytes s2 = pdfBytes s"
    using write_out_fields[of api savePath "btoa lib b" b s] w by simp
  show ?thesis
  proof (cases err)
    case None
    then have "export_from lib api savePath b s = export_finish savePath b False s2"
      using w assms by (simp add: export_from_def export_try_zero)
    then show ?thesis using e export_finish_fields[of savePath b False s2] by auto
  next
    case (Some x)
    then have "export_from lib api savePath b s =
        flashStatus ''Failed to write the PDF. Please try again.'' ''error''
          ((log_effect (ConsoleError ''Write failed'' x) s2)
             \<lparr>signError := ''Failed to write the PDF. Please try again.''\<rparr>)"
      using w assms by (simp add: export_from_def export_try_zero)
    then show ?thesis using e p
      by (simp add: flashStatus_def log_effect_def hands_over_def)
  qed
qed


lemma via_export_from_zero:
  assumes eq: "handleExport lib api st = export_from lib api savePath b s"
    and z: "drafts s = []"
    and ef: "\<exists>pre. effects s = effects st @ pre \<and> (\<forall>x \<in> set pre. hands_over lib b x)"
    and p: "pdfBytes s = pdfBytes st"
  shows "(\<exists>new. effects (handleExport lib api st) = effects st @ new \<and>
           (\<forall>x \<in> set new. hands_over lib b x)) \<and>
     (pdfBytes (handleExport lib api st) = pdfBytes st \<or>
      pdfBytes (handleExport lib api st) = Some (U8 b))"
proof -
  obtain e where e: "effects (export_from lib api savePath b s) = effects s @ e"
      "\<forall>x \<in> set e. hands_over lib b x"
      "pdfBytes (export_from lib api savePath b s) = pdfBytes s \<or>
       pdfBytes (export_from lib api savePath b s) = Some (U8 b)"
    using export_from_zero[OF z, of lib api savePath b] by blast
  obtain pre where pre: "effects s = effects st @ pre" "\<forall>x \<in> set pre. hands_over lib b x"
    using ef by blast
  have "effects (handleExport lib api st) = effects st @ (pre @ e)"
    unfolding eq using e(1) pre(1) by simp
  moreover have "\<forall>x \<in> set (pre @ e). hands_over lib b x" using e(2) pre(2) by auto
  ultimately have 1: "\<exists>new. effects (handleExport lib api st) = effects st @ new \<and>
           (\<forall>x \<in> set new. hands_over lib b x)" by blast
  have 2: "pdfBytes (handleExport lib api st) = pdfBytes st \<or>
      pdfBytes (handleExport lib api st) = Some (U8 b)"
    unfolding eq using e(3) p by simp
  show ?thesis using 1 2 by (rule conjI)
qed

lemma unchanged_zero:
  assumes "effects s = effects st @ pre" "\<forall>x \<in> set pre. hands_over lib b x" "pdfBytes s = pdfBytes st"
  shows "(\<exists>new. effects s = effects st @ new \<and> (\<forall>x \<in> set new. hands_over lib b x)) \<and>
     (pdfBytes s = pdfBytes st \<or> pdfBytes s = Some (U8 b))"
  using assms by blast

lemma handleExport_zero:
  assumes z: "drafts st = []" and pb: "pdfBytes st = Some pb"
    and nb: "normalizePdfBytes (atob lib) pb = Some b" and hd: "hasPdfHeader b"
  shows "(\<exists>new. effects (handleExport lib api st) = effects st @ new \<and>
           (\<forall>x \<in> set new. hands_over lib b x)) \<and>
     (pdfBytes (handleExport lib api st) = pdfBytes st \<or>
      pdfBytes (handleExport lib api st) = Some (U8 b))"
proof (cases "api_savePdfPath api")
  case None
  let ?s = "st\<lparr>signError := []\<rparr>"
  have "handleExport lib api st = export_from lib api None b ?s"
    using pb nb hd None by (simp add: handleExport_def)
  then show ?thesis
    by (rule via_export_from_zero) (use z in auto)
next
  case sp: (Some savePdfPath)
  let ?s = "st\<lparr>signError := []\<rparr>"
  let ?l = "log_effect (SavePdfPath (pdfName ?s)) ?s"
  have le: "effects ?l = effects st @ [SavePdfPath (pdfName st)]" by (simp add: log_effect_def)
  have lh: "\<forall>x \<in> set [SavePdfPath (pdfName st)]. hands_over lib b x" by (simp add: hands_over_def)
  have lp: "pdfBytes ?l = pdfBytes st" by (simp add: log_effect_def)
  have lz: "drafts ?l = []" using z by (simp add: log_effect_def)
  show ?thesis
  proof (cases "savePdfPath (pdfName ?s)")
    case (Inl e)
    have "handleExport lib api st =
        flashStatus ''Save dialog failed. Please try again.'' ''error''
          (log_effect (ConsoleError ''Save dialog failed'' e) ?l)"
      using pb nb hd sp Inl by (simp add: handleExport_def)
    then show ?thesis
      by (intro conjI exI[of _ "[SavePdfPath (pdfName st), ConsoleError ''Save dialog failed'' e]"])
         (simp_all add: flashStatus_def log_effect_def hands_over_def)
  next
    case (Inr r)
    show ?thesis
    proof (cases "\<exists>path. r = Some path \<and> path \<noteq> []")
      case False
      then have "handleExport lib api st = ?l"
        using pb nb hd sp Inr by (cases r) (auto simp: handleExport_def)
      then show ?thesis using unchanged_zero[OF le lh lp] by simp
    next
      case True
      then obtain path where p: "r = Some path" "path \<noteq> []" by blast
      have "handleExport lib api st = export_from lib api (Some path) b ?l"
        using pb nb hd sp Inr p by (simp add: handleExport_def)
      then show ?thesis
        by (rule via_export_from_zero) (use lz le lh lp in auto)
    qed
  qed
qed

lemma handleExport_zero_browser:
  assumes z: "drafts st = []" and pb: "pdfBytes st = Some pb"
    and nb: "normalizePdfBytes (atob lib) pb = Some b" and hd: "hasPdfHeader b"
    and api: "api_savePdfPath api = None" "api_savePdf api = None"
  shows "effects (handleExport lib api st) =
       effects st @ [Download (if pdfName st = [] then ''fillforge-export.pdf'' else pdfName st) b] \<and>
     pdfBytes (handleExport lib api st) = Some (U8 b)"
proof -
  let ?s = "st\<lparr>signError := []\<rparr>"
  have "handleExport lib api st = export_from lib api None b ?s"
    using pb nb hd api by (simp add: handleExport_def)
  moreover have "export_try lib api ?s b = Completed ?s b False"
    by (rule export_try_zero) (use z in simp)
  ultimately show ?thesis
    using api by (simp add: export_from_def write_out_def export_finish_def log_effect_def
        split: option.splits)
qed

text \<open>
  Claim C8.  With no drafts, on document bytes \<open>b\<close> that have the \<open>%PDF\<close>
  header, the loop returns \<open>b\<close> itself; every write, save or download the
  export makes hands over \<open>b\<close>, and no signing request is made; the document
  bytes in the state end as they were or as \<open>b\<close>.  In a browser without the
  desktop bridge the export downloads \<open>b\<close>.
\<close>

theorem export_zero_drafts:
  assumes z: "drafts st = []" and pb: "pdfBytes st = Some pb"
    and nb: "normalizePdfBytes (atob lib) pb = Some b" and hd: "hasPdfHeader b"
  shows "export_drafts lib (pageViewports st) (includeVisualSignature st) (drafts st) b = Inr b \<and>
     (\<exists>new. effects (handleExport lib api st) = effects st @ new \<and>
        (\<forall>x \<in> set new. hands_over lib b x)) \<and>
     (pdfBytes (handleExport lib api st) = pdfBytes st \<or>
      pdfBytes (handleExport lib api st) = Some (U8 b)) \<and>
     (api_savePdfPath api = None \<and> api_savePdf api = None \<longrightarrow>
        effects (handleExport lib api st) =
          effects st @ [Download (if pdfName st = [] then ''fillforge-export.pdf'' else pdfName st) b] \<and>
        pdfBytes (handleExport lib api st) = Some (U8 b))"
  using handleExport_zero[OF z pb nb hd, of api] handleExport_zero_browser[OF z pb nb hd, of api] z
  by simp

theorem export_zero_drafts_witness:
  "effects (handleExport sample_lib no_bridge (sample_app [])) = [Download ''form.pdf'' sample_pdf] \<and>
   pdfBytes (handleExport sample_lib no_bridge (sample_app [])) = Some (U8 sample_pdf)"
  using export_zero_drafts[of "sample_app []" "U8 sample_pdf" sample_lib sample_pdf no_bridge]
  by (simp add: sample_app_def no_bridge_def normalizePdfBytes_def hasPdfHeader_def sample_pdf_def
      as_bytes_def)

end
